theory Spec2Isabelle
  imports Main
begin

chapter \<open>Listing cache, query optimizer and verification engine of the job search\<close>

text \<open>
  The development embeds the query optimizer (\<^verbatim>\<open>searchEnhancer.ts\<close>), the cache
  store adapter and the verification engine (\<^verbatim>\<open>jobCacheService.ts\<close>,
  \<^verbatim>\<open>jobVerificationService.ts\<close>) and the two route handlers that drive them, and
  proves properties of these functions. Definitions come first, statements after.
\<close>

section \<open>JavaScript string primitives\<close>

text \<open>
  Strings are lists of 8-bit characters; the model is exact for ASCII text, where
  \<^verbatim>\<open>length\<close> counts characters as JavaScript counts code units,
  \<^verbatim>\<open>toLowerCase\<close> changes the letters A to Z only, and the white space of
  \<^verbatim>\<open>trim\<close> and of the pattern \<^verbatim>\<open>\s\<close> is space, tab, line feed, vertical tab,
  form feed and carriage return. \<open>includes_str s p\<close> is \<^verbatim>\<open>s.includes(p)\<close> and
  \<open>startsWith s p\<close> is \<^verbatim>\<open>s.startsWith(p)\<close>. \<open>split_ws\<close> is
  \<^verbatim>\<open>split(/\s+/)\<close>: it cuts at every maximal run of white space, so a leading or a
  trailing run leaves an empty first or last word. A JavaScript \<^verbatim>\<open>Set\<close> keeps its
  members in insertion order; it is a duplicate-free list and \<open>set_add\<close> its
  \<^verbatim>\<open>add\<close>.
\<close>

definition is_space :: "char \<Rightarrow> bool" where
  "is_space c = (c \<in> set [CHR '' '', CHR 0x09, CHR 0x0A, CHR 0x0B, CHR 0x0C, CHR 0x0D])"

definition lower_char :: "char \<Rightarrow> char" where
  "lower_char c =
     (if (65::nat) \<le> of_char c \<and> of_char c \<le> (90::nat) then char_of (of_char c + (32::nat)) else c)"

definition toLowerCase :: "string \<Rightarrow> string" where
  "toLowerCase s = map lower_char s"

definition trim :: "string \<Rightarrow> string" where
  "trim s = rev (dropWhile is_space (rev (dropWhile is_space s)))"

fun startsWith :: "string \<Rightarrow> string \<Rightarrow> bool" where
  "startsWith s [] = True"
| "startsWith [] (p # ps) = False"
| "startsWith (c # cs) (p # ps) = (if c = p then startsWith cs ps else False)"

fun includes_str :: "string \<Rightarrow> string \<Rightarrow> bool" where
  "includes_str [] p = (p = [])"
| "includes_str (c # cs) p = (if startsWith (c # cs) p then True else includes_str cs p)"

fun split_from :: "string \<Rightarrow> string \<Rightarrow> bool \<Rightarrow> string list" where
  "split_from [] cur in_gap = [cur]"
| "split_from (c # cs) cur in_gap =
     (if is_space c then (if in_gap then split_from cs cur True else cur # split_from cs [] True)
      else split_from cs (cur @ [c]) False)"

definition split_ws :: "string \<Rightarrow> string list" where
  "split_ws s = split_from s [] False"

fun join_space :: "string list \<Rightarrow> string" where
  "join_space [] = []"
| "join_space [w] = w"
| "join_space (w # v # ws) = w @ '' '' @ join_space (v # ws)"

fun every :: "('a \<Rightarrow> bool) \<Rightarrow> 'a list \<Rightarrow> bool" where
  "every P [] = True"
| "every P (x # xs) = (if P x then every P xs else False)"

fun some :: "('a \<Rightarrow> bool) \<Rightarrow> 'a list \<Rightarrow> bool" where
  "some P [] = False"
| "some P (x # xs) = (if P x then True else some P xs)"

definition set_add :: "string list \<Rightarrow> string \<Rightarrow> string list" where
  "set_add s x = (if x \<in> set s then s else s @ [x])"

section \<open>Query optimizer\<close>

text \<open>
  Shallow embedding of \<^verbatim>\<open>app/lib/searchEnhancer.ts\<close>. The two tables are object
  literals; \<^verbatim>\<open>Object.entries\<close> walks the own keys in the order written, which the
  association lists keep.
\<close>

definition JOB_CATEGORIES :: "(string \<times> string list) list" where
  "JOB_CATEGORIES =
    [(''software'', [''software engineer'', ''software developer'', ''programmer'', ''coder'',
        ''developer'', ''swe'', ''dev'']),
     (''frontend'', [''frontend developer'', ''front-end developer'', ''react developer'',
        ''angular developer'', ''vue developer'', ''ui developer'', ''javascript developer'',
        ''web developer'', ''fe dev'']),
     (''backend'', [''backend developer'', ''back-end developer'', ''api developer'',
        ''server developer'', ''php developer'', ''python developer'', ''java developer'',
        ''node developer'', ''be dev'']),
     (''fullstack'', [''full stack developer'', ''full-stack developer'', ''web developer'',
        ''fullstack dev'', ''fs dev'']),
     (''mobile'', [''mobile developer'', ''android developer'', ''ios developer'',
        ''react native developer'', ''app developer'']),
     (''devops'', [''devops engineer'', ''cloud engineer'', ''sre'', ''site reliability engineer'',
        ''infrastructure engineer'']),
     (''data'', [''data scientist'', ''data analyst'', ''data engineer'', ''business analyst'',
        ''database administrator'', ''ds'']),
     (''analytics'', [''analytics'', ''business intelligence'', ''bi analyst'',
        ''data visualization'', ''tableau'']),
     (''machine learning'', [''ml engineer'', ''ai engineer'', ''artificial intelligence'',
        ''deep learning'', ''nlp'', ''ml'']),
     (''design'', [''ui designer'', ''ux designer'', ''graphic designer'', ''web designer'',
        ''product designer'']),
     (''product'', [''product designer'', ''product manager'', ''product owner'',
        ''ux researcher'', ''pm'']),
     (''marketing'', [''digital marketing'', ''content marketing'', ''seo specialist'',
        ''social media manager'', ''marketing manager'']),
     (''sales'', [''sales representative'', ''account executive'', ''business development'',
        ''sales manager'']),
     (''finance'', [''financial analyst'', ''accountant'', ''controller'', ''finance manager'',
        ''bookkeeper'']),
     (''manager'', [''project manager'', ''team lead'', ''director'', ''program manager'',
        ''scrum master'']),
     (''executive'', [''cto'', ''ceo'', ''vp'', ''vice president'', ''chief'']),
     (''intern'', [''internship'', ''co-op'', ''student'', ''graduate'', ''junior'']),
     (''senior'', [''sr'', ''lead'', ''principal'', ''architect'', ''expert'']),
     (''junior'', [''jr'', ''entry level'', ''associate'', ''trainee'', ''beginner''])]"

definition ABBREVIATIONS :: "(string \<times> string list) list" where
  "ABBREVIATIONS =
    [(''eng'', [''engineer'', ''engineering'']),
     (''dev'', [''developer'', ''development'']),
     (''mgr'', [''manager'']),
     (''sr'', [''senior'']),
     (''jr'', [''junior'']),
     (''swe'', [''software engineer'']),
     (''fe'', [''frontend'', ''front-end'']),
     (''be'', [''backend'', ''back-end'']),
     (''fs'', [''fullstack'', ''full-stack'']),
     (''pm'', [''product manager'', ''project manager'']),
     (''qa'', [''quality assurance'', ''tester'']),
     (''ui'', [''user interface'']),
     (''ux'', [''user experience'']),
     (''ai'', [''artificial intelligence'']),
     (''ml'', [''machine learning'']),
     (''bi'', [''business intelligence'']),
     (''ds'', [''data scientist'']),
     (''sci'', [''scientist''])]"

text \<open>
  \<^verbatim>\<open>ABBREVIATIONS[word]\<close> is a property read on an ordinary object: a key that
  the literal does not define is looked up in \<^verbatim>\<open>Object.prototype\<close>, whose members
  are functions and objects, hence truthy, and have no \<^verbatim>\<open>forEach\<close>. The call
  \<^verbatim>\<open>ABBREVIATIONS[word].forEach(...)\<close> then throws a \<^verbatim>\<open>TypeError\<close>.
\<close>

definition Object_prototype_members :: "string list" where
  "Object_prototype_members =
    [''constructor'', ''__defineGetter__'', ''__defineSetter__'', ''hasOwnProperty'',
     ''__lookupGetter__'', ''__lookupSetter__'', ''isPrototypeOf'', ''propertyIsEnumerable'',
     ''toString'', ''valueOf'', ''__proto__'', ''toLocaleString'']"

datatype property_value = Undefined | StringArray "string list" | Inherited

definition ABBREVIATIONS_get :: "string \<Rightarrow> property_value" where
  "ABBREVIATIONS_get word =
     (case map_of ABBREVIATIONS word of
        Some expansions \<Rightarrow> StringArray expansions
      | None \<Rightarrow> if word \<in> set Object_prototype_members then Inherited else Undefined)"

datatype js_error = TypeError

fun expand_words :: "string list \<Rightarrow> nat list \<Rightarrow> string list \<Rightarrow> js_error + string list" where
  "expand_words words [] expandedTerms = Inr expandedTerms"
| "expand_words words (i # is) expandedTerms =
     (case ABBREVIATIONS_get (words ! i) of
        Undefined \<Rightarrow> expand_words words is expandedTerms
      | StringArray expansions \<Rightarrow>
          expand_words words is
            (foldl (\<lambda>acc expansion. set_add acc (join_space (words[i := expansion])))
               expandedTerms expansions)
      | Inherited \<Rightarrow> Inl TypeError)"

definition expandAbbreviations :: "string \<Rightarrow> js_error + string list" where
  "expandAbbreviations search_term =
     (let words = split_ws (toLowerCase search_term)
      in expand_words words [0..<length words] [search_term])"

definition keyword_matches :: "string \<Rightarrow> string \<Rightarrow> string list \<Rightarrow> string list" where
  "keyword_matches normalizedTerm keyword matches =
     (let keywordLower = toLowerCase keyword in
      if length normalizedTerm \<ge> 3 then
        (let m1 = (if includes_str keywordLower normalizedTerm then set_add matches keyword else matches);
             m2 = (if startsWith keywordLower normalizedTerm then set_add m1 keyword else m1);
             termWords = split_ws normalizedTerm;
             keywordWords = split_ws keywordLower
         in if every (\<lambda>termWord.
                 some (\<lambda>keywordWord. startsWith keywordWord termWord \<and> length termWord \<ge> 2)
                   keywordWords) termWords
            then set_add m2 keyword else m2)
      else matches)"

definition category_matches :: "string \<Rightarrow> string list \<Rightarrow> string \<times> string list \<Rightarrow> string list" where
  "category_matches normalizedTerm matches entry =
     (case entry of (category, keywords) \<Rightarrow>
        (let m0 = (if includes_str normalizedTerm category
                   then foldl set_add matches (take 2 keywords) else matches)
         in foldl (\<lambda>m keyword. keyword_matches normalizedTerm keyword m) m0 keywords))"

definition findFuzzyMatches :: "string \<Rightarrow> string list" where
  "findFuzzyMatches search_term =
     (let normalizedTerm = trim (toLowerCase search_term)
      in take 3 (foldl (category_matches normalizedTerm) [search_term] JOB_CATEGORIES))"

text \<open>
  \<open>allMatches\<close> is the set the optimizer collects over the expanded terms. The
  comparator \<^verbatim>\<open>(a, b) => b.length - a.length\<close> orders by decreasing length, and
  \<^verbatim>\<open>Array.prototype.sort\<close> is stable; \<open>sort_key\<close> with the negated length
  is the same stable sort.
\<close>

definition allMatches :: "string list \<Rightarrow> string list" where
  "allMatches expandedTerms =
     foldl (\<lambda>acc search_term. foldl set_add acc (findFuzzyMatches search_term)) [] expandedTerms"

definition optimizeSearchQuery :: "string \<Rightarrow> js_error + string" where
  "optimizeSearchQuery query =
     (if query = [] \<or> trim query = [] then Inr []
      else if includes_str query '' OR '' \<or> includes_str query '' AND '' then Inr query
      else case expandAbbreviations query of
        Inl e \<Rightarrow> Inl e
      | Inr expandedTerms \<Rightarrow>
          (let matchesArray = allMatches expandedTerms;
               betterMatches = filter (\<lambda>m. toLowerCase m \<noteq> toLowerCase query
                                          \<and> length m > length query) matchesArray
           in if length betterMatches > 0
              then Inr (hd (sort_key (\<lambda>m. - int (length m)) betterMatches))
              else Inr query))"


section \<open>Listing cache\<close>

text \<open>
  Shallow embedding of \<^verbatim>\<open>app/lib/jobCacheService.ts\<close>. A Firestore
  \<^verbatim>\<open>Timestamp\<close> is read through \<^verbatim>\<open>toDate().getTime()\<close> only, so it is
  modelled by its millisecond value; the clock (\<^verbatim>\<open>new Date()\<close>,
  \<^verbatim>\<open>Date.now()\<close>, \<^verbatim>\<open>Timestamp.now()\<close>) is the argument \<open>now\<close> of each
  operation. An optional field of a TypeScript interface is an \<open>option\<close>: \<open>None\<close>
  stands for \<^verbatim>\<open>undefined\<close> and \<^verbatim>\<open>null\<close>. Of \<^verbatim>\<open>JobListing\<close> the record
  keeps the fields the cache and the verification code read or write; the nested display
  objects (company, location, category, salary) are copied through unchanged by every
  function and are left out. The field \<^verbatim>\<open>id\<close> is \<open>job_id\<close> here and
  \<^verbatim>\<open>__CLASS__\<close> is \<open>dunder_CLASS\<close>; the fields of \<^verbatim>\<open>JobSearchParams\<close>
  carry the prefix \<open>param_\<close> and the timestamp of a cached search is
  \<open>search_createdAt\<close>, the records of one theory sharing one name space.
\<close>

type_synonym Timestamp = int

record JobListing =
  job_id :: string
  title :: string
  description :: string
  redirect_url :: string
  dunder_CLASS :: "string option"
  createdAt :: "Timestamp option"
  verifiedAt :: "Timestamp option"
  isValid :: "bool option"
  verificationAttempts :: "int option"

record JobSearchParams =
  param_title :: "string option"
  param_location :: "string option"
  param_job_type :: "string option"
  param_page :: "int option"
  results_per_page :: "int option"

text \<open>
  A JavaScript number that the page arithmetic can produce: \<^verbatim>\<open>Math.ceil(count / size)\<close>
  is \<^verbatim>\<open>NaN\<close> or infinite when the page size is \<^verbatim>\<open>NaN\<close> or zero.
\<close>

datatype js_number = Finite int | NaN | PosInfinity | NegInfinity

record CachedJobSearchResult =
  params :: JobSearchParams
  jobIds :: "string list"
  totalJobs :: int
  totalPages :: js_number
  search_createdAt :: Timestamp

subsection \<open>Document references and the store\<close>

text \<open>
  Every access builds its reference with \<^verbatim>\<open>doc(db, COLLECTION, id)\<close> inside the
  function's \<^verbatim>\<open>try\<close>. The Firestore client throws when the id contains
  \<^verbatim>\<open>//\<close>; otherwise it cuts the id at every \<^verbatim>\<open>/\<close>, drops the empty
  pieces, and throws unless the collection name and the pieces together are an even
  number of segments, that is, unless the id has an odd number of non-empty pieces. So
  the empty id and \<^verbatim>\<open>ui/ux\<close> are rejected, and \<^verbatim>\<open>4321\<close>,
  \<^verbatim>\<open>/4321\<close> and \<^verbatim>\<open>4321/\<close> name the same document. \<open>doc\<close> returns the
  segments below the collection, or \<open>None\<close> where the client throws.
\<close>

fun split_at :: "char \<Rightarrow> string \<Rightarrow> string \<Rightarrow> string list" where
  "split_at sep [] cur = [cur]"
| "split_at sep (c # cs) cur =
     (if c = sep then cur # split_at sep cs [] else split_at sep cs (cur @ [c]))"

definition path_segments :: "string \<Rightarrow> string list" where
  "path_segments path = filter (\<lambda>segment. length segment > 0) (split_at CHR ''/'' path [])"

definition doc :: "string \<Rightarrow> string list option" where
  "doc documentId =
     (if includes_str documentId ''//'' then None
      else if even (length (path_segments documentId)) then None
      else Some (path_segments documentId))"

text \<open>
  The document store: the two collections, each a map from the segments of a reference
  to the document. Every call into the store may throw (outage, permission, rejected
  batch); \<open>readable\<close> and \<open>writable\<close> say whether reads and writes succeed, and
  each \<^verbatim>\<open>try/catch\<close> of the source is the corresponding branch of the model.
  \<open>cachedJobs st jobId\<close> is the document of the collection \<^verbatim>\<open>cachedJobs\<close> that
  the id names, if the id is accepted and the document exists.
\<close>

record Store =
  JOBS_COLLECTION :: "string list \<rightharpoonup> JobListing"
  SEARCH_RESULTS_COLLECTION :: "string list \<rightharpoonup> CachedJobSearchResult"
  readable :: bool
  writable :: bool

definition cachedJobs :: "Store \<Rightarrow> string \<rightharpoonup> JobListing" where
  "cachedJobs st jobId = (case doc jobId of None \<Rightarrow> None | Some path \<Rightarrow> JOBS_COLLECTION st path)"

definition DEFAULT_EXPIRATION_MS :: int where
  "DEFAULT_EXPIRATION_MS = 20 * 24 * 60 * 60 * 1000"

subsection \<open>getSearchCacheKey\<close>

text \<open>
  The template literal renders the page number with \<^verbatim>\<open>Number.prototype.toString\<close>:
  for the integers \<^verbatim>\<open>parseInt\<close> produces, plain decimal digits with a leading
  minus sign (JavaScript switches to exponent notation from \<open>10\<^sup>2\<^sup>1\<close> on, still one
  string per number). \<open>None\<close> for the page stands for \<^verbatim>\<open>undefined\<close> and
  \<^verbatim>\<open>NaN\<close>, both falsy, as is \<open>0\<close>.
\<close>

definition digit_char :: "nat \<Rightarrow> char" where
  "digit_char d = ''0123456789'' ! d"

fun digits_of :: "nat \<Rightarrow> string" where
  "digits_of n = (if n < 10 then [digit_char n] else digits_of (n div 10) @ [digit_char (n mod 10)])"

declare digits_of.simps [simp del]

definition number_toString :: "int \<Rightarrow> string" where
  "number_toString i = (if i < 0 then CHR ''-'' # digits_of (nat (- i)) else digits_of (nat i))"

definition or_empty :: "string option \<Rightarrow> string" where
  "or_empty field = (case field of None \<Rightarrow> [] | Some s \<Rightarrow> if s = [] then [] else s)"

definition or_one :: "int option \<Rightarrow> int" where
  "or_one page = (case page of None \<Rightarrow> 1 | Some n \<Rightarrow> if n = 0 then 1 else n)"

definition getSearchCacheKey :: "JobSearchParams \<Rightarrow> string" where
  "getSearchCacheKey ps =
     or_empty (param_title ps) @ ''_'' @ or_empty (param_location ps) @ ''_''
       @ or_empty (param_job_type ps) @ ''_'' @ number_toString (or_one (param_page ps))"

subsection \<open>getCachedSearchResults\<close>

definition getCachedSearchResults ::
  "Store \<Rightarrow> Timestamp \<Rightarrow> JobSearchParams \<Rightarrow> CachedJobSearchResult option" where
  "getCachedSearchResults st now ps =
     (case doc (getSearchCacheKey ps) of
        None \<Rightarrow> None
      | Some path \<Rightarrow>
          if \<not> readable st then None
          else case SEARCH_RESULTS_COLLECTION st path of
            None \<Rightarrow> None
          | Some data \<Rightarrow>
              if now > search_createdAt data + DEFAULT_EXPIRATION_MS then None else Some data)"

subsection \<open>cacheSearchResults\<close>

text \<open>
  \<^verbatim>\<open>sanitizeJobForFirestore\<close> deletes every key that starts and ends with two
  underscores; of the modelled fields that is \<^verbatim>\<open>__CLASS__\<close>.
\<close>

definition sanitizeJobForFirestore :: "JobListing \<Rightarrow> JobListing" where
  "sanitizeJobForFirestore job = job\<lparr>dunder_CLASS := None\<rparr>"

definition cached_document :: "Timestamp \<Rightarrow> JobListing \<Rightarrow> JobListing" where
  "cached_document now job =
     (sanitizeJobForFirestore job)
       \<lparr>createdAt := Some now, verifiedAt := None, isValid := Some True,
        verificationAttempts := Some 0\<rparr>"

text \<open>
  The batch is assembled in memory and committed at the end. A reference that
  \<^verbatim>\<open>doc\<close> rejects, for the search key or for a job id, throws before the commit:
  the function returns \<^verbatim>\<open>false\<close> and nothing is written, as when the commit
  itself fails. \<open>batch_set_jobs\<close> is \<open>None\<close> when a job id is rejected.
\<close>

fun batch_set_jobs ::
  "(string list \<rightharpoonup> JobListing) \<Rightarrow> Timestamp \<Rightarrow> JobListing list
     \<Rightarrow> (string list \<rightharpoonup> JobListing) option" where
  "batch_set_jobs docs now [] = Some docs"
| "batch_set_jobs docs now (job # rest) =
     (case doc (job_id job) of
        None \<Rightarrow> None
      | Some path \<Rightarrow> batch_set_jobs (docs(path \<mapsto> cached_document now job)) now rest)"

definition cacheSearchResults ::
  "Store \<Rightarrow> Timestamp \<Rightarrow> JobSearchParams \<Rightarrow> JobListing list \<Rightarrow> int \<Rightarrow> js_number
     \<Rightarrow> bool \<times> Store" where
  "cacheSearchResults st now ps jobs total_jobs total_pages =
     (case doc (getSearchCacheKey ps) of
        None \<Rightarrow> (False, st)
      | Some searchPath \<Rightarrow>
          (case batch_set_jobs (JOBS_COLLECTION st) now jobs of
             None \<Rightarrow> (False, st)
           | Some jobDocuments \<Rightarrow>
               if \<not> writable st then (False, st)
               else (True,
                 st\<lparr>SEARCH_RESULTS_COLLECTION :=
                      (SEARCH_RESULTS_COLLECTION st)(searchPath \<mapsto>
                        \<lparr>params = ps, jobIds = map job_id jobs, totalJobs = total_jobs,
                         totalPages = total_pages, search_createdAt = now\<rparr>),
                    JOBS_COLLECTION := jobDocuments\<rparr>)))"

subsection \<open>getCachedJobsByIds\<close>

text \<open>
  The two loops run inside one \<^verbatim>\<open>try\<close>: a job id that \<^verbatim>\<open>doc\<close> rejects
  throws, and the catch returns the empty list for the whole call, whatever had been
  collected. The loops return \<open>None\<close> for that exception.
\<close>

fun push_valid_jobs ::
  "(string list \<rightharpoonup> JobListing) \<Rightarrow> JobListing list \<Rightarrow> string list \<Rightarrow> JobListing list option" where
  "push_valid_jobs docs jobs [] = Some jobs"
| "push_valid_jobs docs jobs (jobId # rest) =
     (case doc jobId of
        None \<Rightarrow> None
      | Some path \<Rightarrow>
          push_valid_jobs docs
            (case docs path of
               None \<Rightarrow> jobs
             | Some jobData \<Rightarrow> if isValid jobData = Some True then jobs @ [jobData] else jobs)
            rest)"

definition slice :: "'a list \<Rightarrow> nat \<Rightarrow> nat \<Rightarrow> 'a list" where
  "slice xs i j = take (j - i) (drop i xs)"

function batches_of_ten ::
  "(string list \<rightharpoonup> JobListing) \<Rightarrow> string list \<Rightarrow> nat \<Rightarrow> JobListing list
     \<Rightarrow> JobListing list option" where
  "batches_of_ten docs ids i jobs =
     (if i < length ids
      then (case push_valid_jobs docs jobs (slice ids i (i + 10)) of
              None \<Rightarrow> None
            | Some collected \<Rightarrow> batches_of_ten docs ids (i + 10) collected)
      else Some jobs)"
  by pat_completeness auto
termination
  by (relation "measure (\<lambda>(docs, ids, i, jobs). length ids - i)") auto

declare batches_of_ten.simps [simp del]

definition getCachedJobsByIds :: "Store \<Rightarrow> string list \<Rightarrow> JobListing list" where
  "getCachedJobsByIds st ids =
     (if \<not> readable st then []
      else case batches_of_ten (JOBS_COLLECTION st) ids 0 [] of
        None \<Rightarrow> []
      | Some jobs \<Rightarrow> jobs)"

subsection \<open>getCachedJob\<close>

definition getCachedJob :: "Store \<Rightarrow> Timestamp \<Rightarrow> string \<Rightarrow> JobListing option" where
  "getCachedJob st now jobId =
     (case doc jobId of
        None \<Rightarrow> None
      | Some path \<Rightarrow>
          if \<not> readable st then None
          else case JOBS_COLLECTION st path of
            None \<Rightarrow> None
          | Some jobData \<Rightarrow>
              (case createdAt jobData of
                 None \<Rightarrow> Some jobData
               | Some t \<Rightarrow>
                   if now > t + DEFAULT_EXPIRATION_MS then None else Some jobData))"

subsection \<open>updateJobValidity\<close>

text \<open>
  The attempt count is read first (\<^verbatim>\<open>data()?.verificationAttempts + 1 || 1\<close>: a
  missing document or field gives \<^verbatim>\<open>NaN\<close>, which is falsy, as is a sum of zero);
  \<^verbatim>\<open>updateDoc\<close> then rejects when the document does not exist, and the catch turns
  every failure into \<^verbatim>\<open>false\<close>.
\<close>

definition next_attempts :: "JobListing option \<Rightarrow> int" where
  "next_attempts snapshot =
     (case snapshot of
        None \<Rightarrow> 1
      | Some jobData \<Rightarrow>
          (case verificationAttempts jobData of
             None \<Rightarrow> 1
           | Some n \<Rightarrow> if n + 1 = 0 then 1 else n + 1))"

definition updateJobValidity :: "Store \<Rightarrow> Timestamp \<Rightarrow> string \<Rightarrow> bool \<Rightarrow> bool \<times> Store" where
  "updateJobValidity st now jobId valid =
     (case doc jobId of
        None \<Rightarrow> (False, st)
      | Some path \<Rightarrow>
          if \<not> readable st then (False, st)
          else if \<not> writable st then (False, st)
          else case JOBS_COLLECTION st path of
            None \<Rightarrow> (False, st)
          | Some jobData \<Rightarrow>
              (True,
               st\<lparr>JOBS_COLLECTION := (JOBS_COLLECTION st)(path \<mapsto>
                    jobData\<lparr>isValid := Some valid, verifiedAt := Some now,
                            verificationAttempts := Some (next_attempts (Some jobData))\<rparr>)\<rparr>))"

section \<open>Verification engine\<close>

text \<open>
  Shallow embedding of \<^verbatim>\<open>app/lib/jobVerificationService.ts\<close>. The outbound HTTP
  calls are the two functions of \<open>Network\<close>: a call either throws (timeout, DNS,
  connection) or answers with a status and, for the page fetch, a body. Each function
  returns, besides its result and the new store, the trace of the outbound calls it made
  and of the calls to \<open>updateJobValidity\<close> it issued. \<^verbatim>\<open>response.ok\<close> is a
  status from 200 to 299. The outer \<^verbatim>\<open>catch\<close> of \<^verbatim>\<open>verifyJobById\<close> and of
  the endpoint is never entered, since every function they call catches its own
  exceptions.
\<close>

datatype head_response = HeadThrows | HeadStatus nat

datatype page_response = PageThrows | PageStatus nat string

record Network =
  head_request :: "string \<Rightarrow> head_response"
  get_request :: "string \<Rightarrow> page_response"

datatype event = HeadRequest string | PageRequest string | UpdateValidity string bool

definition response_ok :: "nat \<Rightarrow> bool" where
  "response_ok status = (200 \<le> status \<and> status \<le> 299)"

definition verifyJobValidity ::
  "Store \<Rightarrow> Timestamp \<Rightarrow> Network \<Rightarrow> JobListing \<Rightarrow> bool \<times> Store \<times> event list" where
  "verifyJobValidity st now net job =
     (if redirect_url job = [] then (True, st, [])
      else case head_request net (redirect_url job) of
        HeadThrows \<Rightarrow> (True, st, [HeadRequest (redirect_url job)])
      | HeadStatus status \<Rightarrow>
          (let valid = (response_ok status \<and> status \<notin> set [404, 410])
           in (valid, snd (updateJobValidity st now (job_id job) valid),
               [HeadRequest (redirect_url job), UpdateValidity (job_id job) valid])))"

definition closedPhrases :: "string list" where
  "closedPhrases =
    [''position has been filled'', ''no longer accepting applications'',
     ''application period closed'', ''this job is no longer available'',
     ''position is filled'', ''job has been closed'', ''vacancy is now closed'']"

definition applicationFormIndicators :: "string list" where
  "applicationFormIndicators =
    [''application form'', ''apply now'', ''submit your'', ''upload your'', ''resume'', ''cv'',
     ''cover letter'']"

definition performAdvancedVerification ::
  "Store \<Rightarrow> Timestamp \<Rightarrow> Network \<Rightarrow> JobListing \<Rightarrow> bool \<times> Store \<times> event list" where
  "performAdvancedVerification st now net job =
     (if redirect_url job = [] then (True, st, [])
      else case get_request net (redirect_url job) of
        PageThrows \<Rightarrow> (True, st, [PageRequest (redirect_url job)])
      | PageStatus status body \<Rightarrow>
          (let valid =
                 (if \<not> response_ok status then False
                  else if some (includes_str (toLowerCase body)) closedPhrases then False
                  else some (includes_str (toLowerCase body)) applicationFormIndicators)
           in (valid, snd (updateJobValidity st now (job_id job) valid),
               [PageRequest (redirect_url job), UpdateValidity (job_id job) valid])))"

definition TEN_DAYS_MS :: int where
  "TEN_DAYS_MS = 10 * 24 * 60 * 60 * 1000"

definition FIFTEEN_DAYS_MS :: int where
  "FIFTEEN_DAYS_MS = 15 * 24 * 60 * 60 * 1000"

text \<open>\<open>jobAge\<close> is \<open>None\<close> where the source keeps \<^verbatim>\<open>Infinity\<close> (no cache timestamp).\<close>

definition jobAge :: "Timestamp \<Rightarrow> JobListing \<Rightarrow> int option" where
  "jobAge now job = (case createdAt job of None \<Rightarrow> None | Some t \<Rightarrow> Some (now - t))"

definition verifyJobById ::
  "Store \<Rightarrow> Timestamp \<Rightarrow> Network \<Rightarrow> string \<Rightarrow> bool \<times> Store \<times> event list" where
  "verifyJobById st now net jobId =
     (case getCachedJob st now jobId of
        None \<Rightarrow> (False, st, [])
      | Some job \<Rightarrow>
          if (case jobAge now job of None \<Rightarrow> False | Some age \<Rightarrow> age < TEN_DAYS_MS)
          then (True, st, [])
          else
            (case verifyJobValidity st now net job of
               (isValidBasic, st1, trace1) \<Rightarrow>
                 if \<not> isValidBasic then (False, st1, trace1)
                 else if (case jobAge now job of None \<Rightarrow> False | Some age \<Rightarrow> age > FIFTEEN_DAYS_MS)
                 then (case performAdvancedVerification st1 now net job of
                         (result, st2, trace2) \<Rightarrow> (result, st2, trace1 @ trace2))
                 else (isValidBasic, st1, trace1)))"

subsection \<open>The on-demand endpoint \<^verbatim>\<open>app/api/jobs/verify/[id]/route.ts\<close>\<close>

datatype verify_response =
    VerifyError nat string
  | VerifyResult string bool "Timestamp option" int "JobListing option"

definition verify_route_GET ::
  "Store \<Rightarrow> Timestamp \<Rightarrow> Network \<Rightarrow> string \<Rightarrow> verify_response \<times> Store \<times> event list" where
  "verify_route_GET st now net jobId =
     (if jobId = [] then (VerifyError 400 ''Job ID is required'', st, [])
      else case getCachedJob st now jobId of
        None \<Rightarrow> (VerifyError 404 ''Job not found in cache'', st, [])
      | Some cachedJob \<Rightarrow>
          (case verifyJobById st now net jobId of
             (valid, st', trace) \<Rightarrow>
               (let updatedJob = getCachedJob st' now jobId
                in (VerifyResult jobId valid
                      (case updatedJob of None \<Rightarrow> None | Some j \<Rightarrow> verifiedAt j)
                      (case updatedJob of
                         None \<Rightarrow> 0
                       | Some j \<Rightarrow> (case verificationAttempts j of None \<Rightarrow> 0 | Some n \<Rightarrow> n))
                      updatedJob,
                    st', trace))))"

section \<open>Search orchestrator\<close>

text \<open>
  Shallow embedding of \<^verbatim>\<open>GET\<close> in \<^verbatim>\<open>app/api/jobs/route.ts\<close>. The request is
  taken after \<^verbatim>\<open>searchParams.get(...) || ""\<close> and \<^verbatim>\<open>parseInt\<close> (\<open>None\<close> is
  \<^verbatim>\<open>NaN\<close>). The provider is a function from the query the handler builds to its reply;
  \<open>FetchRejected\<close> covers a rejected \<^verbatim>\<open>fetch\<close> and an unparsable body, which the
  outer \<^verbatim>\<open>catch\<close> turns into status 500, as it does an exception of the
  \<^verbatim>\<open>URL\<close> constructor or of the query optimizer. The module-level request counter is
  explicit state. The expiry sweep is started without being awaited and has no part in
  the response; it is not modelled.
\<close>

record SearchRequest =
  req_title :: string
  req_location :: string
  req_job_type :: string
  req_page :: "int option"
  req_results_per_page :: "int option"
  req_skip_cache :: bool

record Environment =
  ADZUNA_APP_ID :: "string option"
  ADZUNA_API_KEY :: "string option"
  ADZUNA_BASE_URL :: "string option"

record Counter =
  adzunaRequestsToday :: nat
  lastResetDate :: string

record ProviderQuery =
  q_base_url :: string
  q_country :: string
  q_page :: "int option"
  q_app_id :: string
  q_app_key :: string
  q_results_per_page :: "int option"
  q_what :: "string option"
  q_where :: "string option"
  q_filter :: "string option"

datatype provider_reply =
    FetchRejected
  | HttpFailure nat
  | HttpSuccess "JobListing list option" "int option"

record Platform =
  fetch_provider :: "ProviderQuery \<Rightarrow> provider_reply"
  url_parses :: "string \<Rightarrow> bool"

record JobApiResponse =
  resp_jobs :: "JobListing list"
  resp_totalJobs :: int
  resp_totalPages :: js_number
  resp_currentPage :: "int option"
  resp_fromCache :: bool

datatype api_response = JsonError nat string | JsonOk JobApiResponse

definition checkAndResetCounter :: "string \<Rightarrow> Counter \<Rightarrow> Counter" where
  "checkAndResetCounter today c =
     (if today \<noteq> lastResetDate c then \<lparr>adzunaRequestsToday = 0, lastResetDate = today\<rparr> else c)"

definition countryCode :: "string \<Rightarrow> string" where
  "countryCode location =
     (if includes_str (toLowerCase location) ''toronto''
         \<or> includes_str (toLowerCase location) ''canada''
         \<or> includes_str (toLowerCase location) ''ontario'' then ''ca''
      else if includes_str (toLowerCase location) ''london''
         \<or> includes_str (toLowerCase location) ''uk''
         \<or> includes_str (toLowerCase location) ''england'' then ''gb''
      else ''us'')"

definition job_type_filter :: "string \<Rightarrow> string option" where
  "job_type_filter jobType =
     (if jobType \<in> set [''full_time'', ''part_time'', ''contract'', ''permanent'']
      then Some jobType else None)"

definition ceil_pages :: "int \<Rightarrow> int option \<Rightarrow> js_number" where
  "ceil_pages count page_size =
     (case page_size of
        None \<Rightarrow> NaN
      | Some n \<Rightarrow>
          if n = 0 then (if count = 0 then NaN else if count > 0 then PosInfinity else NegInfinity)
          else Finite (- ((- count) div n)))"

definition or_zero :: "int option \<Rightarrow> int" where
  "or_zero n = (case n of None \<Rightarrow> 0 | Some k \<Rightarrow> k)"

definition optimized_title :: "string \<Rightarrow> js_error + string option" where
  "optimized_title t =
     (if t = [] then Inr None
      else case optimizeSearchQuery t of Inl e \<Rightarrow> Inl e | Inr optimizedQuery \<Rightarrow> Inr (Some optimizedQuery))"

definition search_params :: "SearchRequest \<Rightarrow> JobSearchParams" where
  "search_params req =
     \<lparr>param_title = Some (req_title req), param_location = Some (req_location req),
      param_job_type = Some (req_job_type req), param_page = req_page req,
      results_per_page = req_results_per_page req\<rparr>"

definition falsy :: "string option \<Rightarrow> bool" where
  "falsy v = (case v of None \<Rightarrow> True | Some s \<Rightarrow> s = [])"

definition provider_query :: "Environment \<Rightarrow> SearchRequest \<Rightarrow> string option \<Rightarrow> ProviderQuery" where
  "provider_query env req what =
     \<lparr>q_base_url = or_empty (ADZUNA_BASE_URL env), q_country = countryCode (req_location req),
      q_page = req_page req, q_app_id = or_empty (ADZUNA_APP_ID env),
      q_app_key = or_empty (ADZUNA_API_KEY env),
      q_results_per_page = req_results_per_page req, q_what = what,
      q_where = (if req_location req = [] then None else Some (req_location req)),
      q_filter = job_type_filter (req_job_type req)\<rparr>"

definition response_data ::
  "SearchRequest \<Rightarrow> JobListing list option \<Rightarrow> int option \<Rightarrow> JobApiResponse" where
  "response_data req results count =
     \<lparr>resp_jobs = (case results of None \<Rightarrow> [] | Some js \<Rightarrow> js),
      resp_totalJobs = or_zero count,
      resp_totalPages = ceil_pages (or_zero count) (req_results_per_page req),
      resp_currentPage = req_page req, resp_fromCache = False\<rparr>"

definition jobs_route_GET ::
  "Environment \<Rightarrow> Platform \<Rightarrow> Timestamp \<Rightarrow> string \<Rightarrow> SearchRequest \<Rightarrow> Store \<Rightarrow> Counter
     \<Rightarrow> api_response \<times> Store \<times> Counter" where
  "jobs_route_GET env platform now today req st c =
     (case (if \<not> req_skip_cache req then getCachedSearchResults st now (search_params req)
            else None) of
        Some cachedResults \<Rightarrow>
          (JsonOk \<lparr>resp_jobs = getCachedJobsByIds st (jobIds cachedResults),
                   resp_totalJobs = totalJobs cachedResults,
                   resp_totalPages = totalPages cachedResults,
                   resp_currentPage = req_page req, resp_fromCache = True\<rparr>, st, c)
      | None \<Rightarrow>
          if falsy (ADZUNA_APP_ID env) \<or> falsy (ADZUNA_API_KEY env) \<or> falsy (ADZUNA_BASE_URL env)
          then (JsonError 500 ''API credentials not configured'', st, c)
          else if adzunaRequestsToday (checkAndResetCounter today c) \<ge> 90
          then (JsonError 429 ''API rate limit reached for today'', st, checkAndResetCounter today c)
          else if \<not> url_parses platform (or_empty (ADZUNA_BASE_URL env))
          then (JsonError 500 ''Internal server error'', st, checkAndResetCounter today c)
          else
            (case optimized_title (req_title req) of
               Inl e \<Rightarrow> (JsonError 500 ''Internal server error'', st, checkAndResetCounter today c)
             | Inr what \<Rightarrow>
                 (let c' = (checkAndResetCounter today c)
                             \<lparr>adzunaRequestsToday :=
                                adzunaRequestsToday (checkAndResetCounter today c) + 1\<rparr>
                  in case fetch_provider platform (provider_query env req what) of
                     FetchRejected \<Rightarrow> (JsonError 500 ''Internal server error'', st, c')
                   | HttpFailure status \<Rightarrow> (JsonError status ''Failed to fetch job listings'', st, c')
                   | HttpSuccess results count \<Rightarrow>
                       (let responseData = response_data req results count
                        in (JsonOk responseData,
                            snd (cacheSearchResults st now (search_params req)
                                   (resp_jobs responseData) (resp_totalJobs responseData)
                                   (resp_totalPages responseData)),
                            c')))))"

section \<open>The selection step as the specification words it\<close>

text \<open>
  Section 4.1 of the specification, steps (3) and (4): from the collected candidates
  discard those equal to the original query or shorter than it; return the longest
  remaining candidate, the earliest on a tie, or the original query when none remains.
  These two definitions follow that wording; they are compared with
  \<open>optimizeSearchQuery\<close> below.
\<close>

fun first_longest :: "string list \<Rightarrow> string" where
  "first_longest [] = []"
| "first_longest [x] = x"
| "first_longest (x # y # ys) =
     (if length (first_longest (y # ys)) > length x then first_longest (y # ys) else x)"

definition spec_select :: "string \<Rightarrow> string list \<Rightarrow> string" where
  "spec_select query candidates =
     (if filter (\<lambda>c. \<not> (c = query \<or> length c < length query)) candidates = [] then query
      else first_longest (filter (\<lambda>c. \<not> (c = query \<or> length c < length query)) candidates))"

section \<open>Notions used in the statements\<close>

text \<open>
  \<open>verification_fields\<close> are the validity flag, the verified-at timestamp and the
  attempt count of a listing; \<open>text_fields\<close> are the three text components of a cache
  key after the \<^verbatim>\<open>|| ''\<close> defaults.
\<close>

definition verification_fields :: "JobListing \<Rightarrow> bool option \<times> Timestamp option \<times> int option" where
  "verification_fields job = (isValid job, verifiedAt job, verificationAttempts job)"


definition text_fields :: "JobSearchParams \<Rightarrow> string list" where
  "text_fields ps =
     [or_empty (param_title ps), or_empty (param_location ps), or_empty (param_job_type ps)]"

section \<open>Example data\<close>

definition example_job :: JobListing where
  "example_job =
     \<lparr> job_id = ''4321'', title = ''Web Developer'', description = ''Build things'',
       redirect_url = ''https://jobs.example/4321'', dunder_CLASS = None,
       createdAt = Some 1000, verifiedAt = None, isValid = Some True,
       verificationAttempts = Some 0 \<rparr>"

definition example_store :: Store where
  "example_store =
     \<lparr> JOBS_COLLECTION = [[''4321''] \<mapsto> example_job], SEARCH_RESULTS_COLLECTION = Map.empty,
       readable = True, writable = True \<rparr>"

definition example_network :: Network where
  "example_network = \<lparr> head_request = (\<lambda>url. HeadThrows), get_request = (\<lambda>url. PageThrows) \<rparr>"

definition verified_job :: JobListing where
  "verified_job =
     example_job\<lparr>isValid := Some False, verifiedAt := Some 5000, verificationAttempts := Some 2\<rparr>"

definition verified_store :: Store where
  "verified_store = example_store\<lparr>JOBS_COLLECTION := [[''4321''] \<mapsto> verified_job]\<rparr>"

definition provider_job :: JobListing where
  "provider_job =
     example_job\<lparr>dunder_CLASS := Some ''Adzuna::API::Response::Job'', createdAt := None,
                 isValid := None, verificationAttempts := None\<rparr>"

definition example_params :: JobSearchParams where
  "example_params =
     \<lparr>param_title = Some ''web developer'', param_location = Some [], param_job_type = Some [],
      param_page = Some 1, results_per_page = Some 10\<rparr>"

definition answering_network :: Network where
  "answering_network =
     \<lparr> head_request = (\<lambda>url. HeadStatus 200),
       get_request = (\<lambda>url. PageStatus 200 ''Apply now to join our team'') \<rparr>"

definition readonly_store :: Store where
  "readonly_store = example_store\<lparr>writable := False\<rparr>"

definition example_env :: Environment where
  "example_env =
     \<lparr>ADZUNA_APP_ID = Some ''app'', ADZUNA_API_KEY = Some ''key'',
      ADZUNA_BASE_URL = Some ''https://api.adzuna.com/v1/api''\<rparr>"

definition example_platform :: Platform where
  "example_platform =
     \<lparr>fetch_provider = (\<lambda>q. HttpSuccess (Some [provider_job]) (Some 1)),
      url_parses = (\<lambda>u. True)\<rparr>"

definition example_request :: SearchRequest where
  "example_request =
     \<lparr>req_title = [], req_location = ''Toronto'', req_job_type = [], req_page = Some 1,
      req_results_per_page = Some 10, req_skip_cache = False\<rparr>"

definition example_counter :: Counter where
  "example_counter = \<lparr>adzunaRequestsToday = 3, lastResetDate = ''Mon Nov 02 2026''\<rparr>"

definition underscore_params_a :: JobSearchParams where
  "underscore_params_a =
     \<lparr>param_title = Some ''a_'', param_location = Some [], param_job_type = Some [],
      param_page = Some 1, results_per_page = Some 10\<rparr>"

definition underscore_params_b :: JobSearchParams where
  "underscore_params_b =
     \<lparr>param_title = Some ''a'', param_location = Some ''_'', param_job_type = Some [],
      param_page = Some 1, results_per_page = Some 10\<rparr>"

section \<open>Documents by id\<close>

lemma cachedJobs_Some:
  "cachedJobs st jobId = Some l \<Longrightarrow> \<exists>path. doc jobId = Some path \<and> JOBS_COLLECTION st path = Some l"
  by (auto simp: cachedJobs_def split: option.splits)

lemma doc_4321: "doc ''4321'' = Some [''4321'']"
  by (simp add: doc_def path_segments_def)

lemma doc_empty: "doc [] = None"
  by (simp add: doc_def path_segments_def)

section \<open>Expiry of single listings\<close>

text \<open>
  C7. A listing whose document carries the cache timestamp \<open>T\<close> is returned by
  \<open>getCachedJob\<close> one second before \<open>T + 20 days\<close> and is absent one second after it;
  the window is checked when the listing is read (the store is reachable).
\<close>

theorem getCachedJob_expiry_boundary:
  assumes "readable st"
    and "cachedJobs st jobId = Some l"
    and "createdAt l = Some T"
  shows "getCachedJob st (T + 20 * 24 * 60 * 60 * 1000 - 1000) jobId = Some l
       \<and> getCachedJob st (T + 20 * 24 * 60 * 60 * 1000 + 1000) jobId = None"
proof -
  obtain path where "doc jobId = Some path" and "JOBS_COLLECTION st path = Some l"
    using cachedJobs_Some [OF assms(2)] by blast
  then show ?thesis
    using assms(1,3) by (simp add: getCachedJob_def DEFAULT_EXPIRATION_MS_def)
qed

theorem getCachedJob_expiry_boundary_witness:
  "getCachedJob example_store (1000 + 20 * 24 * 60 * 60 * 1000 - 1000) ''4321'' = Some example_job
   \<and> getCachedJob example_store (1000 + 20 * 24 * 60 * 60 * 1000 + 1000) ''4321'' = None"
proof -
  have r: "readable example_store"
    by (simp add: example_store_def)
  have d: "cachedJobs example_store ''4321'' = Some example_job"
    by (simp add: cachedJobs_def doc_4321 example_store_def)
  have c: "createdAt example_job = Some 1000"
    by (simp add: example_job_def)
  show ?thesis
    using getCachedJob_expiry_boundary [OF r d c] by simp
qed

section \<open>Fail-open basic verification\<close>

text \<open>
  C5. When the basic probe of a listing that has a redirect URL throws (network failure or
  timeout), \<open>verifyJobValidity\<close> answers \<open>True\<close> instead of failing, returns the store
  as it was (so the validity flag, the verified-at timestamp and the attempt count of every
  listing are unchanged), and its trace holds the probe alone: \<open>updateJobValidity\<close> is
  not called.
\<close>

theorem verifyJobValidity_fail_open:
  assumes "redirect_url job \<noteq> []"
    and "head_request net (redirect_url job) = HeadThrows"
  shows "verifyJobValidity st now net job = (True, st, [HeadRequest (redirect_url job)])"
  using assms by (simp add: verifyJobValidity_def)

theorem verifyJobValidity_fail_open_witness:
  "verifyJobValidity example_store 5000 example_network example_job
     = (True, example_store, [HeadRequest ''https://jobs.example/4321''])"
proof -
  have u: "redirect_url example_job \<noteq> []"
    by (simp add: example_job_def)
  have h: "head_request example_network (redirect_url example_job) = HeadThrows"
    by (simp add: example_network_def)
  show ?thesis
    using verifyJobValidity_fail_open [OF u h, of example_store 5000]
    by (simp add: example_job_def)
qed


section \<open>Batch read of listings\<close>

lemma map_filter_append: "List.map_filter f (xs @ ys) = List.map_filter f xs @ List.map_filter f ys"
  by (simp add: List.map_filter_def)

lemma push_valid_jobs_eq:
  "push_valid_jobs docs jobs ids
     = (if list_all (\<lambda>i. doc i \<noteq> None) ids
        then Some (jobs @ filter (\<lambda>d. isValid d = Some True)
               (List.map_filter (\<lambda>i. case doc i of None \<Rightarrow> None | Some path \<Rightarrow> docs path) ids))
        else None)"
proof (induction ids arbitrary: jobs)
  case Nil
  show ?case by (simp add: List.map_filter_def)
next
  case (Cons i ids)
  show ?case
  proof (cases "doc i")
    case None
    then show ?thesis by simp
  next
    case (Some path)
    then show ?thesis
      by (cases "docs path") (simp_all add: Cons.IH List.map_filter_def)
  qed
qed

lemma batches_of_ten_eq:
  "batches_of_ten docs ids i jobs
     = (if list_all (\<lambda>i. doc i \<noteq> None) (drop i ids)
        then Some (jobs @ filter (\<lambda>d. isValid d = Some True)
               (List.map_filter (\<lambda>i. case doc i of None \<Rightarrow> None | Some path \<Rightarrow> docs path)
                  (drop i ids)))
        else None)"
proof (induction docs ids i jobs rule: batches_of_ten.induct)
  case (1 docs ids i jobs)
  show ?case
  proof (cases "i < length ids")
    case True
    have split: "drop i ids = take 10 (drop i ids) @ drop (i + 10) ids"
      by (metis add.commute append_take_drop_id drop_drop)
    have unfold: "batches_of_ten docs ids i jobs
            = (case push_valid_jobs docs jobs (take 10 (drop i ids)) of
                 None \<Rightarrow> None
               | Some collected \<Rightarrow> batches_of_ten docs ids (i + 10) collected)"
      using True by (subst batches_of_ten.simps) (simp add: slice_def)
    show ?thesis
    proof (cases "list_all (\<lambda>i. doc i \<noteq> None) (take 10 (drop i ids))")
      case False
      then have "\<not> list_all (\<lambda>i. doc i \<noteq> None) (drop i ids)"
        by (subst split) simp
      then show ?thesis
        using False by (simp add: unfold push_valid_jobs_eq)
    next
      case accepted: True
      define collected where "collected = jobs @ filter (\<lambda>d. isValid d = Some True)
               (List.map_filter (\<lambda>i. case doc i of None \<Rightarrow> None | Some path \<Rightarrow> docs path)
                  (take 10 (drop i ids)))"
      have p: "push_valid_jobs docs jobs (slice ids i (i + 10)) = Some collected"
        using accepted by (simp add: push_valid_jobs_eq slice_def collected_def)
      have rest: "batches_of_ten docs ids (i + 10) collected
            = (if list_all (\<lambda>i. doc i \<noteq> None) (drop (i + 10) ids)
               then Some (collected @ filter (\<lambda>d. isValid d = Some True)
                      (List.map_filter (\<lambda>i. case doc i of None \<Rightarrow> None | Some path \<Rightarrow> docs path)
                         (drop (i + 10) ids)))
               else None)"
        using True p by (rule "1.IH")
      have all: "list_all (\<lambda>i. doc i \<noteq> None) (drop i ids)
                   = list_all (\<lambda>i. doc i \<noteq> None) (drop (i + 10) ids)"
        using accepted by (subst split) simp
      have "batches_of_ten docs ids i jobs = batches_of_ten docs ids (i + 10) collected"
        using p by (simp add: unfold slice_def)
      also have "\<dots> = (if list_all (\<lambda>i. doc i \<noteq> None) (drop i ids)
               then Some (jobs @ filter (\<lambda>d. isValid d = Some True)
                      (List.map_filter (\<lambda>i. case doc i of None \<Rightarrow> None | Some path \<Rightarrow> docs path)
                         (take 10 (drop i ids) @ drop (i + 10) ids)))
               else None)"
        unfolding rest all by (simp add: collected_def map_filter_append)
      finally show ?thesis
        using split by simp
    qed
  next
    case False
    then show ?thesis
      by (subst batches_of_ten.simps) (simp add: List.map_filter_def)
  qed
qed

lemma getCachedJobsByIds_eq:
  "getCachedJobsByIds st ids
     = (if readable st \<and> list_all (\<lambda>i. doc i \<noteq> None) ids
        then filter (\<lambda>d. isValid d = Some True) (List.map_filter (cachedJobs st) ids)
        else [])"
proof -
  have "(\<lambda>i. case doc i of None \<Rightarrow> None | Some path \<Rightarrow> JOBS_COLLECTION st path) = cachedJobs st"
    by (rule ext) (simp add: cachedJobs_def)
  then show ?thesis
    by (simp add: getCachedJobsByIds_def batches_of_ten_eq)
qed

text \<open>
  An id that \<^verbatim>\<open>doc\<close> rejects empties the whole result: the listing stored under
  \<^verbatim>\<open>4321\<close> is not returned when the empty id is among the requested ones.
\<close>

lemma getCachedJobsByIds_rejected_id:
  "\<not> list_all (\<lambda>i. doc i \<noteq> None) ids \<Longrightarrow> getCachedJobsByIds st ids = []"
  by (simp add: getCachedJobsByIds_eq)

lemma getCachedJobsByIds_empty_id: "getCachedJobsByIds example_store [''4321'', [], ''4321''] = []"
  by (rule getCachedJobsByIds_rejected_id) (simp add: doc_empty)

text \<open>
  C9. On a reachable store, and for requested ids that are document ids (\<^verbatim>\<open>doc\<close>
  accepts each of them), \<open>getCachedJobsByIds\<close> returns the stored documents of the
  requested ids, in the order of the request, ids without a document skipped, keeping those
  whose validity flag is \<open>true\<close>. The retention window plays no part: a listing older
  than 20 days, which \<open>getCachedJob\<close> no longer returns, is still in the result of the
  batch read when its flag is \<open>true\<close>.
\<close>

theorem getCachedJobsByIds_valid_in_order:
  assumes "readable st"
    and "list_all (\<lambda>i. doc i \<noteq> None) ids"
  shows "getCachedJobsByIds st ids
           = filter (\<lambda>d. isValid d = Some True) (List.map_filter (cachedJobs st) ids)
       \<and> (i \<in> set ids \<and> cachedJobs st i = Some d \<and> isValid d = Some True
            \<and> createdAt d = Some t \<and> now > t + DEFAULT_EXPIRATION_MS
          \<longrightarrow> getCachedJob st now i = None \<and> d \<in> set (getCachedJobsByIds st ids))"
proof -
  have eq: "getCachedJobsByIds st ids
           = filter (\<lambda>d. isValid d = Some True) (List.map_filter (cachedJobs st) ids)"
    using assms by (simp add: getCachedJobsByIds_eq)
  have member: "d \<in> set (List.map_filter (cachedJobs st) ids)"
    if "i \<in> set ids" "cachedJobs st i = Some d"
    using that by (force simp: List.map_filter_def)
  have expired: "getCachedJob st now i = None"
    if stored: "cachedJobs st i = Some d" and old: "createdAt d = Some t"
      "now > t + DEFAULT_EXPIRATION_MS"
  proof -
    obtain path where "doc i = Some path" and "JOBS_COLLECTION st path = Some d"
      using cachedJobs_Some [OF stored] by blast
    then show ?thesis
      using old by (simp add: getCachedJob_def)
  qed
  show ?thesis
    using eq member expired by auto
qed

theorem getCachedJobsByIds_valid_in_order_witness:
  "getCachedJobsByIds example_store [''0000'', ''4321''] = [example_job]
   \<and> getCachedJob example_store (1000 + 30 * 24 * 60 * 60 * 1000) ''4321'' = None
   \<and> example_job \<in> set (getCachedJobsByIds example_store [''0000'', ''4321''])"
proof -
  have r: "readable example_store"
    by (simp add: example_store_def)
  have z: "doc ''0000'' = Some [''0000'']"
    by (simp add: doc_def path_segments_def)
  have v: "list_all (\<lambda>i. doc i \<noteq> None) [''0000'', ''4321'']"
    by (simp add: doc_4321 z)
  have m: "cachedJobs example_store ''0000'' = None"
    and d: "cachedJobs example_store ''4321'' = Some example_job"
    by (simp_all add: cachedJobs_def doc_4321 z example_store_def)
  show ?thesis
    using getCachedJobsByIds_valid_in_order [OF r v, of "''4321''" example_job 1000
        "1000 + 30 * 24 * 60 * 60 * 1000"]
    by (simp add: List.map_filter_def m d example_job_def DEFAULT_EXPIRATION_MS_def)
qed

section \<open>Re-caching a listing\<close>

lemma getSearchCacheKey_example: "getSearchCacheKey example_params = ''web developer___1''"
  by (simp add: getSearchCacheKey_def example_params_def or_empty_def or_one_def
      number_toString_def digits_of.simps [of "Suc 0"] digit_char_def)

lemma doc_example_key: "doc (getSearchCacheKey example_params) = Some [''web developer___1'']"
  by (simp add: getSearchCacheKey_example doc_def path_segments_def)

lemma list_all_accepted: "list_all (\<lambda>job. doc (job_id job) \<noteq> None) jobs \<Longrightarrow> job \<in> set jobs
    \<Longrightarrow> \<exists>path. doc (job_id job) = Some path"
  by (auto simp: list_all_iff)

lemma batch_set_jobs_accepts:
  "batch_set_jobs docs now jobs \<noteq> None = list_all (\<lambda>job. doc (job_id job) \<noteq> None) jobs"
  by (induction jobs arbitrary: docs) (auto split: option.splits)

lemma batch_set_jobs_defaults:
  assumes "batch_set_jobs docs now jobs = Some written"
    and "(\<exists>d. docs p = Some d \<and> verification_fields d = (Some True, None, Some 0)
                \<and> createdAt d = Some now)
           \<or> p \<in> set (List.map_filter (\<lambda>job. doc (job_id job)) jobs)"
  shows "\<exists>d. written p = Some d
             \<and> verification_fields d = (Some True, None, Some 0) \<and> createdAt d = Some now"
  using assms
proof (induction jobs arbitrary: docs)
  case Nil
  then show ?case by (simp add: List.map_filter_def)
next
  case (Cons job rest)
  obtain path where path: "doc (job_id job) = Some path"
    and rest: "batch_set_jobs (docs(path \<mapsto> cached_document now job)) now rest = Some written"
    using Cons.prems(1) by (auto split: option.splits)
  have "(\<exists>d. (docs(path \<mapsto> cached_document now job)) p = Some d
              \<and> verification_fields d = (Some True, None, Some 0) \<and> createdAt d = Some now)
        \<or> p \<in> set (List.map_filter (\<lambda>job. doc (job_id job)) rest)"
  proof (cases "p = path")
    case True
    then show ?thesis
      by (simp add: cached_document_def sanitizeJobForFirestore_def verification_fields_def)
  next
    case False
    then show ?thesis
      using Cons.prems(2) path by (auto simp: List.map_filter_def)
  qed
  with rest show ?case
    by (rule Cons.IH)
qed

text \<open>
  The write succeeds exactly when \<^verbatim>\<open>doc\<close> accepts the search key and every job
  id and the commit goes through; otherwise it returns \<open>False\<close> and leaves the store as
  it was. A title with one slash is such a failure.
\<close>

lemma cacheSearchResults_succeeds_iff:
  "fst (cacheSearchResults st now ps jobs total_jobs total_pages)
     = (doc (getSearchCacheKey ps) \<noteq> None \<and> list_all (\<lambda>job. doc (job_id job) \<noteq> None) jobs
        \<and> writable st)"
  using batch_set_jobs_accepts [of "JOBS_COLLECTION st" now jobs]
  by (auto simp: cacheSearchResults_def split: option.splits)

lemma cacheSearchResults_failure_frame:
  "\<not> fst (cacheSearchResults st now ps jobs total_jobs total_pages)
     \<Longrightarrow> snd (cacheSearchResults st now ps jobs total_jobs total_pages) = st"
  by (auto simp: cacheSearchResults_def split: option.splits if_splits)

lemma cacheSearchResults_slash_in_title:
  "cacheSearchResults example_store 9000 (example_params\<lparr>param_title := Some ''ui/ux''\<rparr>)
     [provider_job] 1 (Finite 1) = (False, example_store)"
proof -
  have "getSearchCacheKey (example_params\<lparr>param_title := Some ''ui/ux''\<rparr>) = ''ui/ux___1''"
    by (simp add: getSearchCacheKey_def example_params_def or_empty_def or_one_def
        number_toString_def digits_of.simps [of "Suc 0"] digit_char_def)
  then have "doc (getSearchCacheKey (example_params\<lparr>param_title := Some ''ui/ux''\<rparr>)) = None"
    by (simp add: doc_def path_segments_def)
  then show ?thesis
    by (simp add: cacheSearchResults_def)
qed

text \<open>
  C1 (amended). A search-result cache write that succeeds stores every listing of the
  result with the defaults (valid, no verified-at timestamp, zero attempts) and the
  current time as cache timestamp, whether or not a document with that id existed before:
  \<^verbatim>\<open>batch.set\<close> replaces the document, and the earlier verification fields
  are not kept.
\<close>

theorem cacheSearchResults_resets_verification:
  assumes "fst (cacheSearchResults st now ps jobs total_jobs total_pages)"
    and "job \<in> set jobs"
  shows "map_option verification_fields
            (cachedJobs (snd (cacheSearchResults st now ps jobs total_jobs total_pages)) (job_id job))
           = Some (Some True, None, Some 0)
       \<and> map_option createdAt
            (cachedJobs (snd (cacheSearchResults st now ps jobs total_jobs total_pages)) (job_id job))
           = Some (Some now)"
proof -
  have ok: "doc (getSearchCacheKey ps) \<noteq> None"
    "list_all (\<lambda>job. doc (job_id job) \<noteq> None) jobs" "writable st"
    using assms(1) by (simp_all add: cacheSearchResults_succeeds_iff)
  obtain searchPath where s: "doc (getSearchCacheKey ps) = Some searchPath"
    using ok(1) by auto
  obtain written where w: "batch_set_jobs (JOBS_COLLECTION st) now jobs = Some written"
    using ok(2) batch_set_jobs_accepts [of "JOBS_COLLECTION st" now jobs] by auto
  obtain path where p: "doc (job_id job) = Some path"
    using list_all_accepted [OF ok(2) assms(2)] by blast
  have "path \<in> set (List.map_filter (\<lambda>job. doc (job_id job)) jobs)"
    using assms(2) p by (force simp: List.map_filter_def)
  then obtain d where "written path = Some d"
    and "verification_fields d = (Some True, None, Some 0)" and "createdAt d = Some now"
    using batch_set_jobs_defaults [OF w, of path] by blast
  then show ?thesis
    using s w p ok(3) by (simp add: cacheSearchResults_def cachedJobs_def)
qed

theorem cacheSearchResults_resets_verification_witness:
  "fst (cacheSearchResults verified_store 9000 example_params [provider_job] 1 (Finite 1))
   \<and> map_option verification_fields
        (cachedJobs (snd (cacheSearchResults verified_store 9000 example_params [provider_job] 1
           (Finite 1))) ''4321'')
       = Some (Some True, None, Some 0)
   \<and> map_option createdAt
        (cachedJobs (snd (cacheSearchResults verified_store 9000 example_params [provider_job] 1
           (Finite 1))) ''4321'')
       = Some (Some 9000)"
proof -
  have i: "job_id provider_job = ''4321''"
    by (simp add: provider_job_def example_job_def)
  have ok: "fst (cacheSearchResults verified_store 9000 example_params [provider_job] 1 (Finite 1))"
    by (simp add: cacheSearchResults_succeeds_iff doc_example_key i doc_4321 verified_store_def
        example_store_def)
  have m: "provider_job \<in> set [provider_job]"
    by simp
  show ?thesis
    using cacheSearchResults_resets_verification [OF ok m] ok
    by (simp add: i)
qed

text \<open>
  The claim as stated fails: a listing stored as invalid, verified at time 5000 after two
  attempts, is valid, unverified and at zero attempts after it appears in a new search
  result.
\<close>

theorem cacheSearchResults_preserves_verification_counterexample:
  "map_option verification_fields (cachedJobs verified_store ''4321'')
     = Some (Some False, Some 5000, Some 2)
   \<and> map_option verification_fields
        (cachedJobs (snd (cacheSearchResults verified_store 9000 example_params [provider_job] 1
           (Finite 1))) ''4321'')
       = Some (Some True, None, Some 0)"
  by (simp add: cacheSearchResults_def cachedJobs_def doc_example_key doc_4321 verified_store_def
      example_store_def verified_job_def provider_job_def example_job_def cached_document_def
      sanitizeJobForFirestore_def verification_fields_def)

section \<open>On-demand verification\<close>

lemma verifyJobValidity_trace:
  "redirect_url job \<noteq> [] \<Longrightarrow>
     hd (snd (snd (verifyJobValidity st now net job))) = HeadRequest (redirect_url job)
     \<and> PageRequest u \<notin> set (snd (snd (verifyJobValidity st now net job)))
     \<and> HeadRequest (redirect_url job) \<in> set (snd (snd (verifyJobValidity st now net job)))"
  by (simp add: verifyJobValidity_def Let_def split: head_response.splits)

lemma performAdvancedVerification_trace:
  "redirect_url job \<noteq> [] \<Longrightarrow>
     PageRequest (redirect_url job) \<in> set (snd (snd (performAdvancedVerification st now net job)))"
  by (simp add: performAdvancedVerification_def Let_def split: page_response.splits)

text \<open>
  C2 (amended). The on-demand endpoint goes through \<open>verifyJobById\<close> and so through
  the same 10-day gate: for a listing that \<open>getCachedJob\<close> returns, with a cache
  timestamp and a redirect URL, the basic probe is issued exactly when the listing's age
  is at least 10 days, and the page fetch of the advanced check exactly when the age is
  more than 15 days and the basic check has passed.
\<close>

theorem verify_route_GET_age_gates:
  assumes "readable st"
    and "jobId \<noteq> []"
    and "cachedJobs st jobId = Some job"
    and "createdAt job = Some t"
    and "redirect_url job \<noteq> []"
    and "now \<le> t + DEFAULT_EXPIRATION_MS"
  shows "(HeadRequest (redirect_url job) \<in> set (snd (snd (verify_route_GET st now net jobId))))
           = (now - t \<ge> TEN_DAYS_MS)
       \<and> (PageRequest (redirect_url job) \<in> set (snd (snd (verify_route_GET st now net jobId))))
           = (now - t > FIFTEEN_DAYS_MS \<and> fst (verifyJobValidity st now net job))"
proof -
  obtain path where "doc jobId = Some path" and "JOBS_COLLECTION st path = Some job"
    using cachedJobs_Some [OF assms(3)] by blast
  then have g: "getCachedJob st now jobId = Some job"
    using assms(1,4,6) by (simp add: getCachedJob_def)
  have tr: "snd (snd (verify_route_GET st now net jobId)) = snd (snd (verifyJobById st now net jobId))"
    using assms(2) g by (simp add: verify_route_GET_def Let_def split: prod.splits)
  obtain b st1 tr1 where v: "verifyJobValidity st now net job = (b, st1, tr1)"
    by (cases "verifyJobValidity st now net job") auto
  obtain r st2 tr2 where a: "performAdvancedVerification st1 now net job = (r, st2, tr2)"
    by (cases "performAdvancedVerification st1 now net job") auto
  have h1: "HeadRequest (redirect_url job) \<in> set tr1" and h2: "PageRequest (redirect_url job) \<notin> set tr1"
    using verifyJobValidity_trace [OF assms(5), of st now net "redirect_url job"] v by simp_all
  have h3: "PageRequest (redirect_url job) \<in> set tr2"
    using performAdvancedVerification_trace [OF assms(5), of st1 now net] a by simp
  have lt: "FIFTEEN_DAYS_MS < now - t \<Longrightarrow> \<not> now - t < TEN_DAYS_MS"
    by (simp add: FIFTEEN_DAYS_MS_def TEN_DAYS_MS_def)
  show ?thesis
    unfolding tr using g assms(4) v a h1 h2 h3 lt
    by (auto simp: verifyJobById_def jobAge_def)
qed


theorem verify_route_GET_age_gates_witness:
  "(HeadRequest ''https://jobs.example/4321''
      \<in> set (snd (snd (verify_route_GET example_store (1000 + 16 * 24 * 60 * 60 * 1000)
                 answering_network ''4321''))))
   \<and> (PageRequest ''https://jobs.example/4321''
      \<in> set (snd (snd (verify_route_GET example_store (1000 + 16 * 24 * 60 * 60 * 1000)
                 answering_network ''4321''))))"
proof -
  have r: "readable example_store"
    by (simp add: example_store_def)
  have n: "''4321'' \<noteq> []"
    by simp
  have d: "cachedJobs example_store ''4321'' = Some example_job"
    by (simp add: cachedJobs_def doc_4321 example_store_def)
  have c: "createdAt example_job = Some 1000"
    by (simp add: example_job_def)
  have u: "redirect_url example_job \<noteq> []"
    by (simp add: example_job_def)
  have w: "1000 + 16 * 24 * 60 * 60 * 1000 \<le> 1000 + DEFAULT_EXPIRATION_MS"
    by (simp add: DEFAULT_EXPIRATION_MS_def)
  have b: "fst (verifyJobValidity example_store (1000 + 16 * 24 * 60 * 60 * 1000)
             answering_network example_job)"
    by (simp add: verifyJobValidity_def answering_network_def example_job_def response_ok_def
        Let_def)
  show ?thesis
    using verify_route_GET_age_gates [OF r n d c u w, of answering_network] b
    by (simp add: TEN_DAYS_MS_def FIFTEEN_DAYS_MS_def example_job_def)
qed

text \<open>
  The claim as stated fails: for a listing cached five days ago the endpoint answers
  without any outbound call, so the age gate of the basic check is not bypassed.
\<close>

theorem verify_route_GET_young_listing_counterexample:
  "getCachedJob example_store (1000 + 5 * 24 * 60 * 60 * 1000) ''4321'' = Some example_job
   \<and> redirect_url example_job = ''https://jobs.example/4321''
   \<and> snd (snd (verify_route_GET example_store (1000 + 5 * 24 * 60 * 60 * 1000)
              answering_network ''4321'')) = []"
  by (simp add: verify_route_GET_def verifyJobById_def getCachedJob_def doc_4321 jobAge_def
      example_store_def example_job_def DEFAULT_EXPIRATION_MS_def TEN_DAYS_MS_def Let_def)


section \<open>Search orchestrator and the cache write\<close>

text \<open>
  C3 (amended). A search request that reaches a successful provider fetch is answered
  with the fetched results whether or not the batched cache write succeeds: the handler
  does not read the boolean \<open>cacheSearchResults\<close> returns. When the write fails the
  store is left as it was.
\<close>

theorem jobs_route_GET_returns_fetched_results:
  assumes "req_skip_cache req \<or> getCachedSearchResults st now (search_params req) = None"
    and "\<not> falsy (ADZUNA_APP_ID env)" and "\<not> falsy (ADZUNA_API_KEY env)"
    and "\<not> falsy (ADZUNA_BASE_URL env)"
    and "adzunaRequestsToday (checkAndResetCounter today c) < 90"
    and "url_parses platform (or_empty (ADZUNA_BASE_URL env))"
    and "optimized_title (req_title req) = Inr what"
    and "fetch_provider platform (provider_query env req what) = HttpSuccess results count"
  shows "fst (jobs_route_GET env platform now today req st c) = JsonOk (response_data req results count)
       \<and> (\<not> writable st \<longrightarrow>
            fst (cacheSearchResults st now (search_params req)
                  (resp_jobs (response_data req results count))
                  (resp_totalJobs (response_data req results count))
                  (resp_totalPages (response_data req results count))) = False
            \<and> fst (snd (jobs_route_GET env platform now today req st c)) = st)"
proof -
  have miss: "(if \<not> req_skip_cache req then getCachedSearchResults st now (search_params req)
               else None) = None"
    using assms(1) by auto
  have unwritten: "cacheSearchResults st now ps jobs total_jobs total_pages = (False, st)"
    if "\<not> writable st" for ps jobs total_jobs total_pages
    using that by (simp add: cacheSearchResults_def split: option.splits)
  show ?thesis
    using assms(2-8)
    by (simp add: jobs_route_GET_def miss Let_def unwritten)
qed

theorem jobs_route_GET_returns_fetched_results_witness:
  "fst (jobs_route_GET example_env example_platform 9000 ''Mon Nov 02 2026'' example_request
          readonly_store example_counter)
     = JsonOk (response_data example_request (Some [provider_job]) (Some 1))
   \<and> fst (cacheSearchResults readonly_store 9000 (search_params example_request)
           (resp_jobs (response_data example_request (Some [provider_job]) (Some 1)))
           (resp_totalJobs (response_data example_request (Some [provider_job]) (Some 1)))
           (resp_totalPages (response_data example_request (Some [provider_job]) (Some 1)))) = False
   \<and> fst (snd (jobs_route_GET example_env example_platform 9000 ''Mon Nov 02 2026''
             example_request readonly_store example_counter)) = readonly_store"
proof -
  have miss: "req_skip_cache example_request
              \<or> getCachedSearchResults readonly_store 9000 (search_params example_request) = None"
    by (simp add: getCachedSearchResults_def readonly_store_def example_store_def
        split: option.splits)
  have c1: "\<not> falsy (ADZUNA_APP_ID example_env)" and c2: "\<not> falsy (ADZUNA_API_KEY example_env)"
    and c3: "\<not> falsy (ADZUNA_BASE_URL example_env)"
    by (simp_all add: falsy_def example_env_def)
  have budget: "adzunaRequestsToday (checkAndResetCounter ''Mon Nov 02 2026'' example_counter) < 90"
    by (simp add: checkAndResetCounter_def example_counter_def)
  have url: "url_parses example_platform (or_empty (ADZUNA_BASE_URL example_env))"
    by (simp add: example_platform_def)
  have opt: "optimized_title (req_title example_request) = Inr None"
    by (simp add: optimized_title_def example_request_def)
  have fetch: "fetch_provider example_platform (provider_query example_env example_request None)
                 = HttpSuccess (Some [provider_job]) (Some 1)"
    by (simp add: example_platform_def)
  have ro: "\<not> writable readonly_store"
    by (simp add: readonly_store_def)
  show ?thesis
    using jobs_route_GET_returns_fetched_results [OF miss c1 c2 c3 budget url opt fetch] ro
    by simp
qed

text \<open>
  The claim as stated fails: with a store that rejects writes the handler still answers
  with the success envelope, while \<open>cacheSearchResults\<close> has returned \<open>False\<close>.
\<close>

theorem jobs_route_GET_success_without_cache_write_counterexample:
  "fst (jobs_route_GET example_env example_platform 9000 ''Mon Nov 02 2026'' example_request
          readonly_store example_counter)
     = JsonOk \<lparr>resp_jobs = [provider_job], resp_totalJobs = 1, resp_totalPages = Finite 1,
               resp_currentPage = Some 1, resp_fromCache = False\<rparr>
   \<and> fst (cacheSearchResults readonly_store 9000 (search_params example_request)
           [provider_job] 1 (Finite 1)) = False"
  by (simp add: jobs_route_GET_def getCachedSearchResults_def cacheSearchResults_def
      readonly_store_def example_store_def falsy_def example_env_def checkAndResetCounter_def
      example_counter_def example_platform_def optimized_title_def example_request_def
      response_data_def or_zero_def ceil_pages_def Let_def split: option.splits)

section \<open>Search fingerprints\<close>

lemma digits_of_small: "n < 10 \<Longrightarrow> digits_of n = [digit_char n]"
  by (simp add: digits_of.simps)

lemma digits_of_large:
  "\<not> n < 10 \<Longrightarrow> digits_of n = digits_of (n div 10) @ [digit_char (n mod 10)]"
  by (subst digits_of.simps) simp

lemma digits_of_not_empty: "digits_of n \<noteq> []"
  by (subst digits_of.simps) simp

lemma of_char_digit_char: "d < 10 \<Longrightarrow> (of_char (digit_char d) :: nat) = 48 + d"
proof -
  assume "d < 10"
  then have "d = 0 \<or> d = 1 \<or> d = 2 \<or> d = 3 \<or> d = 4 \<or> d = 5 \<or> d = 6 \<or> d = 7 \<or> d = 8 \<or> d = 9"
    by presburger
  then show ?thesis
    by (elim disjE) (simp_all add: digit_char_def)
qed

lemma digit_char_inj:
  assumes "d < 10" and "e < 10" and "digit_char d = digit_char e"
  shows "d = e"
proof -
  have "(of_char (digit_char d) :: nat) = of_char (digit_char e)"
    using assms(3) by simp
  then show ?thesis
    using assms(1,2) by (simp add: of_char_digit_char)
qed

lemma digit_char_not_separator:
  assumes "d < 10"
  shows "digit_char d \<noteq> CHR ''_'' \<and> digit_char d \<noteq> CHR ''-''"
proof -
  have "(of_char (digit_char d) :: nat) \<noteq> of_char CHR ''_''"
    and "(of_char (digit_char d) :: nat) \<noteq> of_char CHR ''-''"
    using assms by (simp_all add: of_char_digit_char)
  then show ?thesis
    by auto
qed

lemma digits_of_chars: "CHR ''_'' \<notin> set (digits_of n) \<and> CHR ''-'' \<notin> set (digits_of n)"
proof (induction n rule: digits_of.induct)
  case (1 n)
  show ?case
  proof (cases "n < 10")
    case True
    then have eq: "digits_of n = [digit_char n]"
      by (rule digits_of_small)
    show ?thesis
      unfolding eq using digit_char_not_separator [OF True] by auto
  next
    case False
    then have eq: "digits_of n = digits_of (n div 10) @ [digit_char (n mod 10)]"
      by (rule digits_of_large)
    have "n mod 10 < 10"
      by simp
    then have last: "digit_char (n mod 10) \<noteq> CHR ''_'' \<and> digit_char (n mod 10) \<noteq> CHR ''-''"
      by (rule digit_char_not_separator)
    have front: "CHR ''_'' \<notin> set (digits_of (n div 10)) \<and> CHR ''-'' \<notin> set (digits_of (n div 10))"
      using False by (rule "1.IH")
    show ?thesis
      unfolding eq using last front by auto
  qed
qed

lemma digits_of_inj: "digits_of m = digits_of n \<Longrightarrow> m = n"
proof (induction m arbitrary: n rule: digits_of.induct)
  case (1 m)
  show ?case
  proof (cases "m < 10")
    case True
    then have m: "digits_of m = [digit_char m]"
      by (rule digits_of_small)
    have small: "n < 10"
    proof (rule ccontr)
      assume "\<not> n < 10"
      then have "digits_of n = digits_of (n div 10) @ [digit_char (n mod 10)]"
        by (rule digits_of_large)
      then have "digits_of (n div 10) @ [digit_char (n mod 10)] = [digit_char m]"
        using "1.prems" m by simp
      then show False
        using digits_of_not_empty [of "n div 10"] by (simp add: append_eq_Cons_conv)
    qed
    then have "digits_of n = [digit_char n]"
      by (rule digits_of_small)
    then have "digit_char m = digit_char n"
      using "1.prems" m by simp
    then show ?thesis
      using True small by (intro digit_char_inj)
  next
    case False
    then have m: "digits_of m = digits_of (m div 10) @ [digit_char (m mod 10)]"
      by (rule digits_of_large)
    have large: "\<not> n < 10"
    proof
      assume "n < 10"
      then have "digits_of n = [digit_char n]"
        by (rule digits_of_small)
      then have "digits_of (m div 10) @ [digit_char (m mod 10)] = [digit_char n]"
        using "1.prems" m by simp
      then show False
        using digits_of_not_empty [of "m div 10"] by (simp add: append_eq_Cons_conv)
    qed
    then have "digits_of n = digits_of (n div 10) @ [digit_char (n mod 10)]"
      by (rule digits_of_large)
    then have both: "digits_of (m div 10) @ [digit_char (m mod 10)]
                      = digits_of (n div 10) @ [digit_char (n mod 10)]"
      using "1.prems" m by simp
    have front: "digits_of (m div 10) = digits_of (n div 10)"
      and last: "digit_char (m mod 10) = digit_char (n mod 10)"
      using both by simp_all
    have "m div 10 = n div 10"
      using False front by (rule "1.IH")
    moreover have "m mod 10 = n mod 10"
      using last by (intro digit_char_inj) simp_all
    ultimately show ?thesis
      by (metis div_mult_mod_eq)
  qed
qed

lemma number_toString_no_underscore: "CHR ''_'' \<notin> set (number_toString i)"
  using digits_of_chars [of "nat i"] digits_of_chars [of "nat (- i)"]
  by (auto simp: number_toString_def)

lemma number_toString_inj: "number_toString i = number_toString j \<Longrightarrow> i = j"
proof -
  assume eq: "number_toString i = number_toString j"
  have no_minus: "hd (digits_of n) \<noteq> CHR ''-''" for n
  proof -
    have "hd (digits_of n) \<in> set (digits_of n)"
      using digits_of_not_empty by simp
    then show ?thesis
      using digits_of_chars [of n] by auto
  qed
  consider "i < 0" "j < 0" | "i < 0" "\<not> j < 0" | "\<not> i < 0" "j < 0" | "\<not> i < 0" "\<not> j < 0"
    by blast
  then show "i = j"
  proof cases
    case 1
    then have "nat (- i) = nat (- j)"
      using eq digits_of_inj by (simp add: number_toString_def)
    then show ?thesis using 1 by simp
  next
    case 2
    then have "CHR ''-'' # digits_of (nat (- i)) = digits_of (nat j)"
      using eq by (simp add: number_toString_def)
    then have "hd (digits_of (nat j)) = CHR ''-''"
      by (metis list.sel(1))
    then show ?thesis using no_minus by blast
  next
    case 3
    then have "digits_of (nat i) = CHR ''-'' # digits_of (nat (- j))"
      using eq by (simp add: number_toString_def)
    then have "hd (digits_of (nat i)) = CHR ''-''"
      by (metis list.sel(1))
    then show ?thesis using no_minus by blast
  next
    case 4
    then have "nat i = nat j"
      using eq digits_of_inj by (simp add: number_toString_def)
    then show ?thesis using 4 by simp
  qed
qed

lemma split_at_separator:
  "x \<notin> set a \<Longrightarrow> x \<notin> set b \<Longrightarrow> a @ x # r = b @ x # s \<Longrightarrow> a = b \<and> r = s"
proof (induction a arbitrary: b)
  case Nil
  then show ?case by (cases b) auto
next
  case (Cons c a)
  then show ?case by (cases b) auto
qed

lemma key_underscores:
  "count_list (getSearchCacheKey ps) CHR ''_''
     = count_list (or_empty (param_title ps)) CHR ''_''
       + count_list (or_empty (param_location ps)) CHR ''_''
       + count_list (or_empty (param_job_type ps)) CHR ''_'' + 3"
proof -
  have "CHR ''_'' \<notin> set (number_toString (or_one (param_page ps)))"
    by (rule number_toString_no_underscore)
  then have "count_list (number_toString (or_one (param_page ps))) CHR ''_'' = 0"
    by (simp add: count_list_0_iff)
  then show ?thesis
    by (simp add: getSearchCacheKey_def)
qed

lemma key_injective:
  assumes free: "list_all (\<lambda>s. CHR ''_'' \<notin> set s) (text_fields p1)"
    and eq: "getSearchCacheKey p1 = getSearchCacheKey p2"
  shows "text_fields p1 = text_fields p2 \<and> or_one (param_page p1) = or_one (param_page p2)"
proof -
  have z1: "count_list (or_empty (param_title p1)) CHR ''_'' = 0"
    "count_list (or_empty (param_location p1)) CHR ''_'' = 0"
    "count_list (or_empty (param_job_type p1)) CHR ''_'' = 0"
    using free by (simp_all add: text_fields_def count_list_0_iff)
  have "count_list (getSearchCacheKey p1) CHR ''_'' = count_list (getSearchCacheKey p2) CHR ''_''"
    using eq by simp
  then have z2: "count_list (or_empty (param_title p2)) CHR ''_'' = 0"
    "count_list (or_empty (param_location p2)) CHR ''_'' = 0"
    "count_list (or_empty (param_job_type p2)) CHR ''_'' = 0"
    using z1 by (simp_all add: key_underscores)
  have f1: "CHR ''_'' \<notin> set (or_empty (param_title p1))"
    "CHR ''_'' \<notin> set (or_empty (param_location p1))"
    "CHR ''_'' \<notin> set (or_empty (param_job_type p1))"
    using z1 by (simp_all add: count_list_0_iff)
  have f2: "CHR ''_'' \<notin> set (or_empty (param_title p2))"
    "CHR ''_'' \<notin> set (or_empty (param_location p2))"
    "CHR ''_'' \<notin> set (or_empty (param_job_type p2))"
    using z2 by (simp_all add: count_list_0_iff)
  have e0: "or_empty (param_title p1) @ CHR ''_'' #
              (or_empty (param_location p1) @ CHR ''_'' #
                (or_empty (param_job_type p1) @ CHR ''_'' #
                   number_toString (or_one (param_page p1))))
          = or_empty (param_title p2) @ CHR ''_'' #
              (or_empty (param_location p2) @ CHR ''_'' #
                (or_empty (param_job_type p2) @ CHR ''_'' #
                   number_toString (or_one (param_page p2))))"
    using eq by (simp add: getSearchCacheKey_def)
  have t: "or_empty (param_title p1) = or_empty (param_title p2)"
    and e1: "or_empty (param_location p1) @ CHR ''_'' #
                (or_empty (param_job_type p1) @ CHR ''_'' #
                   number_toString (or_one (param_page p1)))
          = or_empty (param_location p2) @ CHR ''_'' #
                (or_empty (param_job_type p2) @ CHR ''_'' #
                   number_toString (or_one (param_page p2)))"
    using split_at_separator [OF f1(1) f2(1) e0] by simp_all
  have l: "or_empty (param_location p1) = or_empty (param_location p2)"
    and e2: "or_empty (param_job_type p1) @ CHR ''_'' # number_toString (or_one (param_page p1))
          = or_empty (param_job_type p2) @ CHR ''_'' # number_toString (or_one (param_page p2))"
    using split_at_separator [OF f1(2) f2(2) e1] by simp_all
  have j: "or_empty (param_job_type p1) = or_empty (param_job_type p2)"
    and n: "number_toString (or_one (param_page p1)) = number_toString (or_one (param_page p2))"
    using split_at_separator [OF f1(3) f2(3) e2] by simp_all
  show ?thesis
    using t l j number_toString_inj [OF n] by (simp add: text_fields_def)
qed

text \<open>
  C4 (amended). Parameter tuples that agree on title, location, job type and page have
  the same fingerprint. Conversely, when the title, location and job type of one tuple
  hold no underscore, its fingerprint equals that of another tuple exactly when the two
  agree on these three fields and on the page after the defaults (an absent field counts
  as the empty string, an absent or zero page as page 1).
\<close>

theorem getSearchCacheKey_fingerprint:
  "(param_title p1 = param_title p2 \<and> param_location p1 = param_location p2
      \<and> param_job_type p1 = param_job_type p2 \<and> param_page p1 = param_page p2
    \<longrightarrow> getSearchCacheKey p1 = getSearchCacheKey p2)
   \<and> (list_all (\<lambda>s. CHR ''_'' \<notin> set s) (text_fields p1)
    \<longrightarrow> (getSearchCacheKey p1 = getSearchCacheKey p2)
          = (text_fields p1 = text_fields p2 \<and> or_one (param_page p1) = or_one (param_page p2)))"
proof (intro conjI impI)
  assume "param_title p1 = param_title p2 \<and> param_location p1 = param_location p2
      \<and> param_job_type p1 = param_job_type p2 \<and> param_page p1 = param_page p2"
  then show "getSearchCacheKey p1 = getSearchCacheKey p2"
    by (simp add: getSearchCacheKey_def)
next
  assume free: "list_all (\<lambda>s. CHR ''_'' \<notin> set s) (text_fields p1)"
  show "(getSearchCacheKey p1 = getSearchCacheKey p2)
          = (text_fields p1 = text_fields p2 \<and> or_one (param_page p1) = or_one (param_page p2))"
  proof
    assume "getSearchCacheKey p1 = getSearchCacheKey p2"
    then show "text_fields p1 = text_fields p2 \<and> or_one (param_page p1) = or_one (param_page p2)"
      using key_injective [OF free] by blast
  next
    assume "text_fields p1 = text_fields p2 \<and> or_one (param_page p1) = or_one (param_page p2)"
    then show "getSearchCacheKey p1 = getSearchCacheKey p2"
      by (simp add: getSearchCacheKey_def text_fields_def)
  qed
qed

theorem getSearchCacheKey_fingerprint_witness:
  "getSearchCacheKey example_params = getSearchCacheKey example_params
   \<and> getSearchCacheKey example_params
       = getSearchCacheKey (example_params\<lparr>param_location := None, param_page := Some 0\<rparr>)
   \<and> getSearchCacheKey example_params
       \<noteq> getSearchCacheKey (example_params\<lparr>param_page := Some 2\<rparr>)"
proof -
  have free: "list_all (\<lambda>s. CHR ''_'' \<notin> set s) (text_fields example_params)"
    by (simp add: text_fields_def example_params_def or_empty_def)
  show ?thesis
    using getSearchCacheKey_fingerprint [of example_params example_params]
      getSearchCacheKey_fingerprint
        [of example_params "example_params\<lparr>param_location := None, param_page := Some 0\<rparr>"]
      getSearchCacheKey_fingerprint [of example_params "example_params\<lparr>param_page := Some 2\<rparr>"]
      free
    by (simp add: text_fields_def example_params_def or_empty_def or_one_def)
qed

text \<open>
  The claim as stated fails in two ways. The defaults merge tuples that differ: page 0
  and page 1 share a fingerprint. And the underscore is both separator and ordinary
  character: the title \<^verbatim>\<open>"a_"\<close> with an empty location and the title
  \<^verbatim>\<open>"a"\<close> with the location \<^verbatim>\<open>"_"\<close> share a fingerprint.
\<close>

theorem getSearchCacheKey_collision_counterexample:
  "getSearchCacheKey (example_params\<lparr>param_page := Some 0\<rparr>) = getSearchCacheKey example_params
   \<and> param_page (example_params\<lparr>param_page := Some 0\<rparr>) \<noteq> param_page example_params
   \<and> getSearchCacheKey underscore_params_a = getSearchCacheKey underscore_params_b
   \<and> param_title underscore_params_a \<noteq> param_title underscore_params_b
   \<and> param_location underscore_params_a \<noteq> param_location underscore_params_b"
  by (simp add: getSearchCacheKey_def underscore_params_a_def underscore_params_b_def
      example_params_def or_empty_def or_one_def)

section \<open>Evaluating the optimizer on concrete queries\<close>

text \<open>
  Character tests in bit form and the definitions with their local bindings unfolded, so
  that the simplifier computes the optimizer on a literal query from the inside out.
\<close>

lemma is_space_Char:
  "is_space (Char b0 b1 b2 b3 b4 b5 b6 b7) =
     (\<not> b7 \<and> \<not> b6 \<and>
      ((b5 \<and> \<not> b4 \<and> \<not> b3 \<and> \<not> b2 \<and> \<not> b1 \<and> \<not> b0) \<or>
       (\<not> b5 \<and> \<not> b4 \<and> b3 \<and> ((\<not> b2 \<and> (b0 \<or> b1)) \<or> (b2 \<and> \<not> b1)))))"
  by (cases b0; cases b1; cases b2; cases b3; cases b4; cases b5; cases b6; cases b7;
      simp add: is_space_def)

lemma lower_char_Char:
  "lower_char (Char b0 b1 b2 b3 b4 b5 b6 b7) =
     (if \<not> b7 \<and> b6 \<and> \<not> b5 \<and> (b0 \<or> b1 \<or> b2 \<or> b3 \<or> b4)
          \<and> \<not> (b4 \<and> b3 \<and> (b2 \<or> (b1 \<and> b0)))
      then Char b0 b1 b2 b3 b4 True b6 b7 else Char b0 b1 b2 b3 b4 b5 b6 b7)"
  by (cases b0; cases b1; cases b2; cases b3; cases b4; cases b5; cases b6; cases b7;
      simp add: lower_char_def char_of_def bit_Suc_0_iff)

lemma keyword_matches_unfold:
  "keyword_matches nt keyword matches =
     (if length nt \<ge> 3 then
        (if every (\<lambda>termWord. some (\<lambda>keywordWord. startsWith keywordWord termWord \<and> length termWord \<ge> 2)
                   (split_ws (toLowerCase keyword))) (split_ws nt)
         then set_add (if startsWith (toLowerCase keyword) nt
                 then set_add (if includes_str (toLowerCase keyword) nt then set_add matches keyword else matches) keyword
                 else (if includes_str (toLowerCase keyword) nt then set_add matches keyword else matches)) keyword
         else (if startsWith (toLowerCase keyword) nt
                 then set_add (if includes_str (toLowerCase keyword) nt then set_add matches keyword else matches) keyword
                 else (if includes_str (toLowerCase keyword) nt then set_add matches keyword else matches)))
      else matches)"
  unfolding keyword_matches_def Let_def by (rule refl)

lemma category_matches_unfold:
  "category_matches nt matches (category, keywords) =
     foldl (\<lambda>m keyword. keyword_matches nt keyword m)
       (if includes_str nt category then foldl set_add matches (take 2 keywords) else matches) keywords"
  unfolding category_matches_def Let_def by simp

lemma findFuzzyMatches_unfold:
  "findFuzzyMatches t = take 3 (foldl (category_matches (trim (toLowerCase t))) [t] JOB_CATEGORIES)"
  unfolding findFuzzyMatches_def Let_def by (rule refl)

lemma expandAbbreviations_unfold:
  "expandAbbreviations t =
     expand_words (split_ws (toLowerCase t)) [0..<length (split_ws (toLowerCase t))] [t]"
  unfolding expandAbbreviations_def Let_def by (rule refl)

lemmas string_eval = toLowerCase_def lower_char_Char is_space_Char trim_def split_ws_def set_add_def

lemmas matcher_eval = keyword_matches_unfold category_matches_unfold findFuzzyMatches_unfold
  JOB_CATEGORIES_def

lemmas expand_eval = expandAbbreviations_unfold ABBREVIATIONS_get_def ABBREVIATIONS_def
  Object_prototype_members_def upt_rec

lemma expandAbbreviations_constructor: "expandAbbreviations ''constructor'' = Inl TypeError"
  by (simp add: string_eval expand_eval)

lemma expandAbbreviations_developer_web:
  "expandAbbreviations ''developer web'' = Inr [''developer web'']"
  by (simp add: string_eval expand_eval)

lemma expandAbbreviations_jr: "expandAbbreviations ''jr'' = Inr [''jr'', ''junior'']"
  by (simp add: string_eval expand_eval)

lemma findFuzzyMatches_developer_web:
  "findFuzzyMatches ''developer web'' = [''developer web'', ''web developer'']"
  by (simp add: string_eval matcher_eval)

lemma findFuzzyMatches_jr: "findFuzzyMatches ''jr'' = [''jr'']"
  by (simp add: string_eval matcher_eval)

lemma findFuzzyMatches_junior: "findFuzzyMatches ''junior'' = [''junior'', ''jr'', ''entry level'']"
  by (simp add: string_eval matcher_eval)

section \<open>Queries the optimizer leaves alone\<close>

lemma startsWith_set: "startsWith s p \<Longrightarrow> set p \<subseteq> set s"
  by (induction s p rule: startsWith.induct) (auto split: if_splits)

lemma includes_str_set: "includes_str s p \<Longrightarrow> set p \<subseteq> set s"
proof (induction s)
  case Nil
  then show ?case by simp
next
  case (Cons c cs)
  then show ?case
    using startsWith_set [of "c # cs" p] by (auto split: if_splits)
qed

lemma mem_dropWhile: "x \<in> set xs \<Longrightarrow> \<not> P x \<Longrightarrow> x \<in> set (dropWhile P xs)"
  by (induction xs) auto

lemma trim_not_empty:
  assumes "c \<in> set s" and "\<not> is_space c"
  shows "trim s \<noteq> []"
proof -
  define inner where "inner = dropWhile is_space (rev (dropWhile is_space s))"
  have "c \<in> set (rev (dropWhile is_space s))"
    using assms by (simp add: mem_dropWhile)
  then have "c \<in> set inner"
    unfolding inner_def using assms(2) by (rule mem_dropWhile)
  then have "inner \<noteq> []"
    by auto
  moreover have "trim s = rev inner"
    by (simp add: trim_def inner_def)
  ultimately show ?thesis
    by simp
qed

lemma operator_not_blank:
  assumes "includes_str query '' OR '' \<or> includes_str query '' AND ''"
  shows "query \<noteq> [] \<and> trim query \<noteq> []"
proof -
  have "CHR ''O'' \<in> set query \<or> CHR ''A'' \<in> set query"
    using assms includes_str_set [of query "'' OR ''"] includes_str_set [of query "'' AND ''"]
    by auto
  moreover have "\<not> is_space CHR ''O''" and "\<not> is_space CHR ''A''"
    by (simp_all add: is_space_def)
  ultimately have "trim query \<noteq> []"
    using trim_not_empty by blast
  then show ?thesis
    by (auto simp: trim_def)
qed

text \<open>
  C8. \<open>optimizeSearchQuery\<close> returns its input unchanged when the input is empty or
  contains a boolean operator, which the code recognises as the operator between spaces
  (\<^verbatim>\<open>' OR '\<close>, \<^verbatim>\<open>' AND '\<close>); in particular
  \<^verbatim>\<open>"backend engineer OR pm"\<close> comes back as it is.
\<close>

theorem optimizeSearchQuery_noop:
  "(query = [] \<or> includes_str query '' OR '' \<or> includes_str query '' AND ''
      \<longrightarrow> optimizeSearchQuery query = Inr query)
   \<and> optimizeSearchQuery ''backend engineer OR pm'' = Inr ''backend engineer OR pm''"
proof -
  have general: "optimizeSearchQuery q = Inr q"
    if "q = [] \<or> includes_str q '' OR '' \<or> includes_str q '' AND ''" for q
  proof (cases "q = []")
    case True
    then show ?thesis by (simp add: optimizeSearchQuery_def)
  next
    case False
    then have op: "includes_str q '' OR '' \<or> includes_str q '' AND ''"
      using that by simp
    then have "trim q \<noteq> []"
      using operator_not_blank by blast
    then show ?thesis
      using False op by (auto simp: optimizeSearchQuery_def)
  qed
  have "includes_str ''backend engineer OR pm'' '' OR ''"
    by simp
  then show ?thesis
    using general by blast
qed

theorem optimizeSearchQuery_noop_witness:
  "includes_str ''qa AND tester'' '' AND ''
   \<and> optimizeSearchQuery ''qa AND tester'' = Inr ''qa AND tester''"
proof -
  have i: "includes_str ''qa AND tester'' '' AND ''"
    by simp
  show ?thesis
    using optimizeSearchQuery_noop [of "''qa AND tester''"] i by simp
qed


section \<open>The selection among the candidates\<close>

lemma length_toLowerCase: "length (toLowerCase s) = length s"
  by (simp add: toLowerCase_def)

lemma betterMatches_by_length:
  "filter (\<lambda>m. toLowerCase m \<noteq> toLowerCase query \<and> length m > length query) ms
     = filter (\<lambda>m. length m > length query) ms"
proof (rule filter_cong [OF refl])
  fix m
  assume "m \<in> set ms"
  have "length m = length query" if "toLowerCase m = toLowerCase query"
    using that length_toLowerCase [of m] length_toLowerCase [of query] by simp
  then show "(toLowerCase m \<noteq> toLowerCase query \<and> length m > length query)
               = (length m > length query)"
    by auto
qed

lemma hd_insort_key:
  "hd (insort_key f x ys) = (if ys = [] then x else if f x \<le> f (hd ys) then x else hd ys)"
  by (cases ys) auto

lemma sort_key_not_empty: "xs \<noteq> [] \<Longrightarrow> sort_key f xs \<noteq> []"
  by (cases xs) (auto simp: sort_key_def)

lemma hd_sort_by_length:
  "xs \<noteq> [] \<Longrightarrow> hd (sort_key (\<lambda>m. - int (length m)) xs) = first_longest xs"
proof (induction xs rule: first_longest.induct)
  case 1
  then show ?case by simp
next
  case (2 x)
  then show ?case by simp
next
  case (3 x y ys)
  have ih: "hd (sort_key (\<lambda>m. - int (length m)) (y # ys)) = first_longest (y # ys)"
    using 3 by simp
  have ne: "sort_key (\<lambda>m. - int (length m)) (y # ys) \<noteq> []"
    by (rule sort_key_not_empty) simp
  have "hd (sort_key (\<lambda>m. - int (length m)) (x # y # ys))
          = hd (insort_key (\<lambda>m. - int (length m)) x (sort_key (\<lambda>m. - int (length m)) (y # ys)))"
    by simp
  also have "\<dots> = (if length (first_longest (y # ys)) \<le> length x then x
                    else first_longest (y # ys))"
    using ne ih by (simp only: hd_insort_key) auto
  finally show ?case
    by auto
qed

lemma first_longest_position:
  "xs \<noteq> [] \<Longrightarrow>
     \<exists>before after. xs = before @ first_longest xs # after
        \<and> list_all (\<lambda>y. length y < length (first_longest xs)) before
        \<and> list_all (\<lambda>y. length y \<le> length (first_longest xs)) after"
proof (induction xs rule: first_longest.induct)
  case 1
  then show ?case by simp
next
  case (2 x)
  show ?case
    by (rule exI [of _ "[]"], rule exI [of _ "[]"]) simp
next
  case (3 x y ys)
  then obtain before after where split: "y # ys = before @ first_longest (y # ys) # after"
    and b: "list_all (\<lambda>z. length z < length (first_longest (y # ys))) before"
    and a: "list_all (\<lambda>z. length z \<le> length (first_longest (y # ys))) after"
    by (metis list.distinct(1))
  show ?case
  proof (cases "length (first_longest (y # ys)) > length x")
    case True
    have "x # y # ys = (x # before) @ first_longest (y # ys) # after"
      using split by simp
    then show ?thesis
      using True a b
      by (intro exI [of _ "x # before"] exI [of _ after]) simp
  next
    case False
    have all: "list_all (\<lambda>z. length z \<le> length (first_longest (y # ys))) (y # ys)"
      using a b by (subst split) (auto simp: list_all_iff)
    have "list_all (\<lambda>z. length z \<le> length x) (y # ys)"
      using all False by (auto simp: list_all_iff)
    then show ?thesis
      using False
      by (intro exI [of _ "[]"] exI [of _ "y # ys"]) simp
  qed
qed

lemma allMatches_developer_web:
  "allMatches [''developer web''] = [''developer web'', ''web developer'']"
  by (simp add: allMatches_def findFuzzyMatches_developer_web set_add_def)

lemma allMatches_jr: "allMatches [''jr'', ''junior''] = [''jr'', ''junior'', ''entry level'']"
  by (simp add: allMatches_def findFuzzyMatches_jr findFuzzyMatches_junior set_add_def)

lemma trim_developer_web: "trim ''developer web'' = ''developer web''"
  by (simp add: string_eval)

lemma optimizeSearchQuery_developer_web:
  "optimizeSearchQuery ''developer web'' = Inr ''developer web''"
  by (simp add: optimizeSearchQuery_def trim_developer_web expandAbbreviations_developer_web
      allMatches_developer_web Let_def)

text \<open>
  C6 (amended). For a query whose trimmed form is not empty, that holds no boolean
  operator and whose abbreviation expansion completes, the optimizer keeps exactly the
  candidates strictly longer than the query (the case-insensitive comparison with the
  query removes nothing more), and returns the longest kept candidate, the earliest
  collected on a tie, or the query itself when none is kept.
\<close>

theorem optimizeSearchQuery_selection:
  assumes "trim query \<noteq> []"
    and "\<not> includes_str query '' OR ''" and "\<not> includes_str query '' AND ''"
    and "expandAbbreviations query = Inr expandedTerms"
  shows "filter (\<lambda>m. toLowerCase m \<noteq> toLowerCase query \<and> length m > length query)
           (allMatches expandedTerms)
         = filter (\<lambda>m. length m > length query) (allMatches expandedTerms)
       \<and> optimizeSearchQuery query
         = Inr (if filter (\<lambda>m. length m > length query) (allMatches expandedTerms) = [] then query
                else first_longest (filter (\<lambda>m. length m > length query) (allMatches expandedTerms)))"
proof -
  have q: "query \<noteq> []"
    using assms(1) by (auto simp: trim_def)
  show ?thesis
    using assms q
    by (simp add: optimizeSearchQuery_def Let_def betterMatches_by_length hd_sort_by_length)
qed

theorem optimizeSearchQuery_selection_witness:
  "trim ''jr'' = ''jr''
   \<and> expandAbbreviations ''jr'' = Inr [''jr'', ''junior'']
   \<and> allMatches [''jr'', ''junior''] = [''jr'', ''junior'', ''entry level'']
   \<and> optimizeSearchQuery ''jr'' = Inr ''entry level''"
proof -
  have t: "trim ''jr'' = ''jr''"
    by (simp add: string_eval)
  then have n: "trim ''jr'' \<noteq> []"
    by simp
  have o: "\<not> includes_str ''jr'' '' OR ''" and a: "\<not> includes_str ''jr'' '' AND ''"
    by simp_all
  show ?thesis
    using optimizeSearchQuery_selection [OF n o a expandAbbreviations_jr] t
    by (simp add: expandAbbreviations_jr allMatches_jr)
qed

text \<open>
  The claim as stated fails: for \<^verbatim>\<open>"developer web"\<close> the candidate
  \<^verbatim>\<open>"web developer"\<close> is neither equal to the query nor shorter, so the selection
  the specification words would return it; the code discards it, its length not being
  greater, and returns the query.
\<close>

theorem optimizeSearchQuery_same_length_counterexample:
  "expandAbbreviations ''developer web'' = Inr [''developer web'']
   \<and> allMatches [''developer web''] = [''developer web'', ''web developer'']
   \<and> spec_select ''developer web'' [''developer web'', ''web developer''] = ''web developer''
   \<and> optimizeSearchQuery ''developer web'' = Inr ''developer web''"
  by (simp add: expandAbbreviations_developer_web allMatches_developer_web spec_select_def
      optimizeSearchQuery_developer_web)


section \<open>Length of the optimized query\<close>

text \<open>
  Whenever the optimizer returns, on a query whose trimmed form is not empty, the result
  is the query or a strictly longer string.
\<close>

lemma optimizeSearchQuery_length:
  assumes "trim query \<noteq> []" and "optimizeSearchQuery query = Inr result"
  shows "result = query \<or> length result > length query"
proof (cases "includes_str query '' OR '' \<or> includes_str query '' AND ''")
  case True
  then show ?thesis
    using assms by (auto simp: optimizeSearchQuery_def split: if_splits)
next
  case False
  have q: "query \<noteq> []"
    using assms(1) by (auto simp: trim_def)
  obtain expandedTerms where e: "expandAbbreviations query = Inr expandedTerms"
    using assms False q by (auto simp: optimizeSearchQuery_def split: if_splits sum.splits)
  define kept where "kept = filter (\<lambda>m. length m > length query) (allMatches expandedTerms)"
  have r: "result = (if kept = [] then query else first_longest kept)"
    using assms False e q
    by (auto simp: optimizeSearchQuery_def Let_def betterMatches_by_length hd_sort_by_length
        kept_def split: if_splits)
  show ?thesis
  proof (cases "kept = []")
    case True
    then show ?thesis using r by simp
  next
    case False
    then have "first_longest kept \<in> set kept"
      using first_longest_position [of kept] by (metis in_set_conv_decomp)
    then show ?thesis
      using r False by (auto simp: kept_def)
  qed
qed

text \<open>
  C10. The optimizer does not return on every such query: a query with the word
  \<^verbatim>\<open>constructor\<close> reads \<^verbatim>\<open>Object.prototype.constructor\<close> out of the
  abbreviation table and throws.
\<close>

theorem optimizeSearchQuery_constructor_throws:
  "trim ''constructor'' = ''constructor''
   \<and> optimizeSearchQuery ''constructor'' = Inl TypeError"
  by (simp add: optimizeSearchQuery_def expandAbbreviations_constructor string_eval)

end
